theory Spec2Isabelle
  imports Main
begin

section \<open>Text: characters, regular expressions, numbers\<close>

text \<open>
  Python strings are modelled as \<open>string\<close>, each \<open>char\<close> standing for one code point
  below 256. On that range \<open>\d\<close> is the ten ASCII digits, \<open>\s\<close> and \<open>str.strip\<close> see
  the white space listed in \<open>is_space\<close>, and \<open>re.IGNORECASE\<close> on the ASCII letters of
  the patterns used here identifies exactly the two ASCII cases of a letter.
\<close>

definition is_digit :: "char \<Rightarrow> bool" where
  "is_digit c = (c \<in> set ''0123456789'')"

definition is_space :: "char \<Rightarrow> bool" where
  "is_space c = (of_char c \<in> {9, 10, 11, 12, 13, 28, 29, 30, 31, 32, 133, 160 :: nat})"

definition lower_char :: "char \<Rightarrow> char" where
  "lower_char c =
     (case map_of (zip ''ABCDEFGHIJKLMNOPQRSTUVWXYZ'' ''abcdefghijklmnopqrstuvwxyz'') c of
        None \<Rightarrow> c
      | Some l \<Rightarrow> l)"

definition lower_str :: "string \<Rightarrow> string" where
  "lower_str s = map lower_char s"

definition strip :: "string \<Rightarrow> string" where
  "strip s = rev (dropWhile is_space (rev (dropWhile is_space s)))"

definition digit_val :: "char \<Rightarrow> nat" where
  "digit_val c = of_char c - 48"

text \<open>\<open>int(s)\<close> on a run of digits.\<close>

definition int_of_digits :: "string \<Rightarrow> nat" where
  "int_of_digits s = foldl (\<lambda>a c. 10 * a + digit_val c) 0 s"

text \<open>\<open>str(n)\<close> of a non-negative integer.\<close>

fun show_nat :: "nat \<Rightarrow> string" where
  "show_nat n =
     (if n < 10 then [''0123456789'' ! n]
      else show_nat (n div 10) @ [''0123456789'' ! (n mod 10)])"

declare show_nat.simps [simp del]

subsection \<open>The fragment of \<open>re\<close> the scraper uses\<close>

text \<open>
  Every pattern of the source is a sequence of single-character atoms, each taken once
  or under a greedy \<open>?\<close>, \<open>*\<close> or \<open>+\<close>, with capture groups that do not nest. A
  pattern is a list of tokens; \<open>matchp\<close> is the backtracking matcher at one start
  position (greedy alternatives first), \<open>re_search\<close> tries start positions from the left.
\<close>

datatype cclass =
    Lit char
  | LitI char
  | Digit
  | NonDigit
  | Space
  | AnyChar
  | OneOf "cclass list"

fun cc_match :: "cclass \<Rightarrow> char \<Rightarrow> bool" where
  "cc_match (Lit a) c = (c = a)"
| "cc_match (LitI a) c = (lower_char c = lower_char a)"
| "cc_match Digit c = is_digit c"
| "cc_match NonDigit c = (\<not> is_digit c)"
| "cc_match Space c = is_space c"
| "cc_match AnyChar c = True"
| "cc_match (OneOf cs) c = (\<exists>k \<in> set cs. cc_match k c)"

datatype tok = One cclass | Opt cclass | Star cclass | Plus cclass | GOpen | GClose

fun push :: "char \<Rightarrow> string option \<Rightarrow> string option" where
  "push c None = None"
| "push c (Some acc) = Some (c # acc)"

fun matchp :: "tok list \<Rightarrow> string \<Rightarrow> string list \<Rightarrow> string option \<Rightarrow> (string list \<times> string) option" where
  "matchp [] s gs cur = Some (rev gs, s)"
| "matchp (GOpen # ts) s gs cur = matchp ts s gs (Some [])"
| "matchp (GClose # ts) s gs cur =
     matchp ts s ((case cur of None \<Rightarrow> [] | Some acc \<Rightarrow> rev acc) # gs) None"
| "matchp (One k # ts) [] gs cur = None"
| "matchp (One k # ts) (c # cs) gs cur =
     (if cc_match k c then matchp ts cs gs (push c cur) else None)"
| "matchp (Opt k # ts) [] gs cur = matchp ts [] gs cur"
| "matchp (Opt k # ts) (c # cs) gs cur =
     (if cc_match k c
      then (case matchp ts cs gs (push c cur) of
              Some r \<Rightarrow> Some r
            | None \<Rightarrow> matchp ts (c # cs) gs cur)
      else matchp ts (c # cs) gs cur)"
| "matchp (Star k # ts) [] gs cur = matchp ts [] gs cur"
| "matchp (Star k # ts) (c # cs) gs cur =
     (if cc_match k c
      then (case matchp (Star k # ts) cs gs (push c cur) of
              Some r \<Rightarrow> Some r
            | None \<Rightarrow> matchp ts (c # cs) gs cur)
      else matchp ts (c # cs) gs cur)"
| "matchp (Plus k # ts) [] gs cur = None"
| "matchp (Plus k # ts) (c # cs) gs cur =
     (if cc_match k c then matchp (Star k # ts) cs gs (push c cur) else None)"

fun re_search :: "tok list \<Rightarrow> string \<Rightarrow> (string list \<times> string) option" where
  "re_search ts [] = matchp ts [] [] None"
| "re_search ts (c # cs) =
     (case matchp ts (c # cs) [] None of
        Some r \<Rightarrow> Some r
      | None \<Rightarrow> re_search ts cs)"

definition lit :: "string \<Rightarrow> tok list" where
  "lit s = map (\<lambda>c. One (Lit c)) s"

definition lit_i :: "string \<Rightarrow> tok list" where
  "lit_i s = map (\<lambda>c. One (LitI c)) s"

text \<open>
  \<open>re.findall\<close> for a pattern without groups: the successive non-overlapping matches,
  left to right. The pattern is passed wrapped in one group, so that the matched text is
  the group. After an empty match the scan moves on by one character.
\<close>

lemma matchp_rest_length:
  "matchp ts s gs cur = Some (g, r) \<Longrightarrow> length r \<le> length s"
proof (induction ts s gs cur arbitrary: g r rule: matchp.induct)
  case (7 k ts c cs gs cur)
  then show ?case
    by (fastforce split: if_splits option.splits)
next
  case (9 k ts c cs gs cur)
  then show ?case
    by (fastforce split: if_splits option.splits)
qed (fastforce split: if_splits option.splits)+

function findall :: "tok list \<Rightarrow> string \<Rightarrow> string list" where
  "findall ts [] = (case matchp ts [] [] None of Some (g # _, _) \<Rightarrow> [g] | _ \<Rightarrow> [])"
| "findall ts (c # cs) =
     (case matchp ts (c # cs) [] None of
        Some (g # _, r) \<Rightarrow>
          (if length r < length (c # cs) then g # findall ts r else g # findall ts cs)
      | _ \<Rightarrow> findall ts cs)"
  by pat_completeness auto
termination
  by (relation "measure (\<lambda>(ts, s). length s)") auto

subsection \<open>Floating point\<close>

text \<open>
  A Python \<open>float\<close> is an IEEE 754 binary64 number. Only non-negative values arise here:
  \<open>Finite m e\<close> is \<open>m * 2 ^ e\<close> with \<open>m < 2 ^ 53\<close>, \<open>- 1074 \<le> e \<le> 971\<close>, and
  \<open>2 ^ 52 \<le> m\<close> unless \<open>e = - 1074\<close>, so that every value has one representation.
  \<open>double_round p q\<close> is the binary64 number nearest to \<open>p / q\<close> (\<open>q > 0\<close>), ties to
  the even significand, as \<open>float(str)\<close> and the arithmetic of the hardware round.
\<close>

datatype pyfloat = Finite nat int | Infinity

fun bitlen_nat :: "nat \<Rightarrow> nat" where
  "bitlen_nat n = (if n = 0 then 0 else Suc (bitlen_nat (n div 2)))"

declare bitlen_nat.simps [simp del]

definition round_half_even :: "nat \<Rightarrow> nat \<Rightarrow> nat" where
  "round_half_even p q =
     (let f = p div q; r = p mod q
      in if 2 * r < q then f
         else if q < 2 * r then f + 1
         else if even f then f else f + 1)"

definition double_round :: "nat \<Rightarrow> nat \<Rightarrow> pyfloat" where
  "double_round p q =
     (if p = 0 then Finite 0 (- 1074)
      else
        let d = int (bitlen_nat p) - int (bitlen_nat q);
            k = (if q * 2 ^ nat d \<le> p * 2 ^ nat (- d) then d else d - 1);
            e = max (k - 52) (- 1074);
            m = round_half_even (p * 2 ^ nat (- e)) (q * 2 ^ nat e);
            m' = (if m = 2 ^ 53 then 2 ^ 52 else m);
            e' = (if m = 2 ^ 53 then e + 1 else e)
        in if 971 < e' then Infinity else Finite m' e')"

text \<open>\<open>x * n\<close> for a float \<open>x\<close> and a positive integer constant \<open>n\<close> below \<open>2 ^ 53\<close>.\<close>

fun float_mul_nat :: "pyfloat \<Rightarrow> nat \<Rightarrow> pyfloat" where
  "float_mul_nat Infinity n = Infinity"
| "float_mul_nat (Finite m e) n = double_round (m * n * 2 ^ nat e) (2 ^ nat (- e))"

datatype pyerror =
    ValueError
  | OverflowError

text \<open>\<open>int(x)\<close> truncates; on infinity it raises \<open>OverflowError\<close>.\<close>

fun int_of_float :: "pyfloat \<Rightarrow> pyerror + nat" where
  "int_of_float Infinity = Inl OverflowError"
| "int_of_float (Finite m e) = Inr (m * 2 ^ nat e div 2 ^ nat (- e))"

text \<open>
  \<open>float(s)\<close>, for the strings the patterns below can capture: digits and dots. It is a
  number when there is at most one dot and at least one digit, and raises
  \<open>ValueError\<close> otherwise.
\<close>

definition float_of_str :: "string \<Rightarrow> pyerror + pyfloat" where
  "float_of_str s =
     (let ip = takeWhile is_digit s;
          rest = dropWhile is_digit s;
          fp = (case rest of [] \<Rightarrow> [] | c # cs \<Rightarrow> cs)
      in if (rest = [] \<or> (hd rest = CHR ''.'' \<and> list_all is_digit fp)) \<and> ip @ fp \<noteq> []
         then Inr (double_round (int_of_digits (ip @ fp)) (10 ^ length fp))
         else Inl ValueError)"

subsection \<open>Python values\<close>

text \<open>
  The values the scraper builds and stores: \<open>None\<close>, integers, floats, strings, lists and
  dictionaries (in insertion order, keys being strings).
\<close>

datatype pyval =
    PNone
  | PInt int
  | PFloat pyfloat
  | PStr string
  | PList "pyval list"
  | PDict "(string \<times> pyval) list"

subsection \<open>The text parsers of the scraper\<close>

text \<open>\<open>r'(\d+)%'\<close>\<close>

definition percentage_pattern :: "tok list" where
  "percentage_pattern = [GOpen, Plus Digit, GClose, One (Lit CHR ''%'')]"

text \<open>
  \<open>extract_percentage\<close> (scraper.py, 634-641): the integer before the first \<open>%\<close> that
  follows a digit, or the string \<open>"N/A"\<close>.
\<close>

definition extract_percentage :: "string \<Rightarrow> pyval" where
  "extract_percentage text =
     (case re_search percentage_pattern text of
        Some (g # _, _) \<Rightarrow> PInt (int (int_of_digits g))
      | _ \<Rightarrow> PStr ''N/A'')"

text \<open>\<open>r"Total votes[:\s]*([\d.,]+)([kM]?)"\<close> under \<open>re.IGNORECASE\<close>\<close>

definition total_votes_pattern :: "tok list" where
  "total_votes_pattern =
     lit_i ''Total votes'' @
     [Star (OneOf [Lit CHR '':'', Space]),
      GOpen, Plus (OneOf [Digit, Lit CHR ''.'', Lit CHR '','']), GClose,
      GOpen, Opt (OneOf [LitI CHR ''k'', LitI CHR ''M'']), GClose]"

text \<open>
  \<open>scaled_votes number n\<close> is \<open>str(int(float(number) * n))\<close> inside the \<open>try\<close>: when
  \<open>float\<close> or \<open>int\<close> raises, the \<open>except Exception\<close> logs and the function falls through to
  its last line, \<open>return "N/A"\<close>.
\<close>

definition scaled_votes :: "string \<Rightarrow> nat \<Rightarrow> pyval" where
  "scaled_votes number n =
     (case float_of_str number of
        Inl _ \<Rightarrow> PStr ''N/A''
      | Inr x \<Rightarrow>
          (case int_of_float (float_mul_nat x n) of
             Inl _ \<Rightarrow> PStr ''N/A''
           | Inr v \<Rightarrow> PStr (show_nat v)))"

text \<open>\<open>extract_total_votes\<close> (scraper.py, 643-663).\<close>

definition extract_total_votes :: "string \<Rightarrow> pyval" where
  "extract_total_votes text =
     (case re_search total_votes_pattern text of
        Some ([g1, g2], _) \<Rightarrow>
          (let number = filter (\<lambda>c. c \<noteq> CHR '','') g1;
               suffix = lower_str g2
           in if suffix = ''k'' then scaled_votes number 1000
              else if suffix = ''m'' then scaled_votes number 1000000
              else PStr number)
      | _ \<Rightarrow> PStr ''N/A'')"

text \<open>\<open>r'Avg\.\s*cards.?(\d+\.?\d)[^\d](\d+\.?\d)'\<close> under \<open>re.IGNORECASE | re.DOTALL\<close>\<close>

definition card_pattern :: "tok list" where
  "card_pattern =
     lit_i ''Avg.'' @ [Star Space] @ lit_i ''cards'' @
     [Opt AnyChar,
      GOpen, Plus Digit, Opt (Lit CHR ''.''), One Digit, GClose,
      One NonDigit,
      GOpen, Plus Digit, Opt (Lit CHR ''.''), One Digit, GClose]"

text \<open>\<open>r'\d+\.\d+'\<close>, wrapped in one group for \<open>findall\<close>\<close>

definition decimal_pattern :: "tok list" where
  "decimal_pattern = [GOpen, Plus Digit, One (Lit CHR ''.''), Plus Digit, GClose]"

text \<open>
  \<open>float(a), float(b)\<close> as the returned pair; an exception is caught by the
  \<open>except Exception\<close> of the function, which then returns \<open>(None, None)\<close>.
\<close>

definition float_pair :: "string \<Rightarrow> string \<Rightarrow> pyval \<times> pyval" where
  "float_pair a b =
     (case float_of_str a of
        Inl _ \<Rightarrow> (PNone, PNone)
      | Inr r \<Rightarrow>
          (case float_of_str b of
             Inl _ \<Rightarrow> (PNone, PNone)
           | Inr y \<Rightarrow> (PFloat r, PFloat y)))"

text \<open>
  \<open>extract_card_stats_from_text\<close> (scraper.py, 613-632): the pair (red, yellow), each a
  float or \<open>None\<close>.
\<close>

definition extract_card_stats_from_text :: "string \<Rightarrow> pyval \<times> pyval" where
  "extract_card_stats_from_text text =
     (case re_search card_pattern text of
        Some ([g1, g2], _) \<Rightarrow> float_pair g1 g2
      | _ \<Rightarrow>
          (case findall decimal_pattern text of
             n0 # n1 # _ \<Rightarrow> float_pair n0 n1
           | _ \<Rightarrow> (PNone, PNone)))"

text \<open>The float that the literal \<open>p / q\<close> in decimal notation denotes.\<close>

definition float_lit :: "nat \<Rightarrow> nat \<Rightarrow> pyfloat" where
  "float_lit p q = double_round p q"

section \<open>Evaluation of the parsers\<close>

lemmas text_eval =
  is_digit_def is_space_def lower_char_def lower_str_def int_of_digits_def digit_val_def
  lit_def lit_i_def

lemma bitlen_nat_eq: "n < 2 ^ k \<Longrightarrow> 2 ^ k \<le> 2 * n \<Longrightarrow> bitlen_nat n = k"
proof (induction k arbitrary: n)
  case 0
  then show ?case by simp
next
  case (Suc k)
  show ?case
  proof (cases k)
    case 0
    with Suc.prems have "n = 1" by simp
    with 0 show ?thesis
      by (simp add: bitlen_nat.simps[of "Suc 0"] bitlen_nat.simps[of 0])
  next
    case (Suc j)
    define m :: nat where "m = 2 ^ j"
    from Suc.prems Suc have a: "n < 4 * m" and b: "4 * m \<le> 2 * n"
      by (simp_all add: m_def)
    have "n div 2 < 2 * m" using a by presburger
    moreover have "2 * m \<le> 2 * (n div 2)" using b by presburger
    ultimately have "bitlen_nat (n div 2) = k"
      using Suc by (intro Suc.IH) (simp_all add: m_def)
    moreover have "0 < m" by (simp add: m_def)
    then have "n \<noteq> 0" using b by linarith
    ultimately show ?thesis by (subst bitlen_nat.simps) simp
  qed
qed

lemma bitlen_nat_values:
  "bitlen_nat (Suc 0) = 1" "bitlen_nat 10 = 4" "bitlen_nat 15 = 4"
  "bitlen_nat 23 = 5" "bitlen_nat 121 = 7"
  by (rule bitlen_nat_eq; simp)+

lemma double_round_121: "double_round 121 1 = Finite 8514618045497344 (- 46)"
  by (simp add: double_round_def round_half_even_def bitlen_nat_values Let_def)

lemma double_round_2_3: "double_round 23 10 = Finite 5179139571476070 (- 51)"
  by (simp add: double_round_def round_half_even_def bitlen_nat_values Let_def)

lemma double_round_1_5: "double_round 15 10 = Finite 6755399441055744 (- 52)"
  by (simp add: double_round_def round_half_even_def bitlen_nat_values Let_def)

lemma float_of_str_values:
  "float_of_str ''121'' = Inr (double_round 121 1)"
  "float_of_str ''2.3'' = Inr (double_round 23 10)"
  "float_of_str ''1.5'' = Inr (double_round 15 10)"
  by (simp_all add: float_of_str_def text_eval)

lemma bitlen_nat_products:
  "bitlen_nat 8514618045497344000 = 63" "bitlen_nat 5179139571476070000000 = 73"
  "bitlen_nat 70368744177664 = 47" "bitlen_nat 2251799813685248 = 52"
  by (rule bitlen_nat_eq; simp)+

lemma float_mul_121_1000:
  "float_mul_nat (Finite 8514618045497344 (- 46)) 1000 = Finite 8315056685056000 (- 36)"
  by (simp add: double_round_def round_half_even_def bitlen_nat_products Let_def)

lemma float_mul_2_3_1000000:
  "float_mul_nat (Finite 5179139571476070 (- 51)) 1000000 = Finite 4939212390400000 (- 31)"
  by (simp add: double_round_def round_half_even_def bitlen_nat_products Let_def)

lemma show_nat_values:
  "show_nat 121000 = ''121000''" "show_nat 2300000 = ''2300000''"
  by (simp_all add: show_nat.simps)

lemma scaled_votes_121: "scaled_votes ''121'' 1000 = PStr ''121000''"
  unfolding scaled_votes_def float_of_str_values double_round_121
  by (simp add: float_mul_121_1000 show_nat_values del: float_mul_nat.simps)

lemma scaled_votes_2_3: "scaled_votes ''2.3'' 1000000 = PStr ''2300000''"
  unfolding scaled_votes_def float_of_str_values double_round_2_3
  by (simp add: float_mul_2_3_1000000 show_nat_values del: float_mul_nat.simps)

lemma search_total_votes_values:
  "re_search total_votes_pattern ''Total votes: 121k'' = Some ([''121'', ''k''], [])"
  "re_search total_votes_pattern ''Total votes: 2.3M'' = Some ([''2.3'', ''M''], [])"
  "re_search total_votes_pattern ''Total votes: 121K'' = Some ([''121'', ''K''], [])"
  "re_search total_votes_pattern ''Total votes: 2.3m'' = Some ([''2.3'', ''m''], [])"
  by (simp_all add: total_votes_pattern_def text_eval)

lemma search_card_value:
  "re_search card_pattern ''Avg. cards 1.5 2.3'' = Some ([''1.5'', ''2.3''], [])"
  by (simp add: card_pattern_def text_eval)

text \<open>
  C7. The parsers on the vectors of the specification: \<open>extract_percentage("83%")\<close> is the
  integer 83; \<open>extract_total_votes\<close> gives 121000 for \<open>"Total votes: 121k"\<close> and 2300000
  for \<open>"Total votes: 2.3M"\<close>, each as the decimal string the function returns;
  \<open>extract_card_stats_from_text("Avg. cards 1.5 2.3")\<close> is the pair of the floats 1.5 (red)
  and 2.3 (yellow).
\<close>

theorem parser_vectors:
  "extract_percentage ''83%'' = PInt 83 \<and>
   extract_total_votes ''Total votes: 121k'' = PStr ''121000'' \<and>
   extract_total_votes ''Total votes: 2.3M'' = PStr ''2300000'' \<and>
   extract_card_stats_from_text ''Avg. cards 1.5 2.3'' =
     (PFloat (float_lit 15 10), PFloat (float_lit 23 10))"
proof -
  have a: "extract_percentage ''83%'' = PInt 83"
    by (simp add: extract_percentage_def percentage_pattern_def text_eval)
  have b: "extract_total_votes ''Total votes: 121k'' = PStr ''121000''"
    unfolding extract_total_votes_def search_total_votes_values
    by (simp add: scaled_votes_121 lower_str_def lower_char_def)
  have c: "extract_total_votes ''Total votes: 2.3M'' = PStr ''2300000''"
    unfolding extract_total_votes_def search_total_votes_values
    by (simp add: scaled_votes_2_3 lower_str_def lower_char_def)
  have d: "extract_card_stats_from_text ''Avg. cards 1.5 2.3'' =
      (PFloat (float_lit 15 10), PFloat (float_lit 23 10))"
    unfolding extract_card_stats_from_text_def search_card_value
    by (simp add: float_pair_def float_of_str_values float_lit_def)
  from a b c d show ?thesis by blast
qed

subsection \<open>The multiplier suffix of the vote count\<close>

lemma matchp_star_run:
  "list_all (cc_match k) ds \<Longrightarrow>
   matchp (Star k # ts) rest gs (Some (rev ds @ acc)) = Some r \<Longrightarrow>
   matchp (Star k # ts) (ds @ rest) gs (Some acc) = Some r"
  by (induction ds arbitrary: acc) simp_all

lemma digit_not_sep: "is_digit d \<Longrightarrow> d \<noteq> CHR '':'' \<and> \<not> is_space d"
  by (auto simp: is_digit_def is_space_def)

lemma filter_digits: "list_all is_digit ds \<Longrightarrow> filter (\<lambda>c. c \<noteq> CHR '','') ds = ds"
  by (induction ds) (auto simp: is_digit_def)

lemma scaled_votes_is_str: "\<exists>s. scaled_votes number n = PStr s"
  by (simp add: scaled_votes_def split: sum.splits)

lemma total_votes_is_str: "\<exists>s. extract_total_votes text = PStr s"
proof (cases "re_search total_votes_pattern text")
  case None
  then show ?thesis by (simp add: extract_total_votes_def)
next
  case (Some a)
  obtain gs r where a: "a = (gs, r)" by (cases a)
  show ?thesis
    using scaled_votes_is_str
    by (simp add: extract_total_votes_def Some a Let_def split: list.splits)
qed


lemma suffix_chars:
  assumes "c \<in> set ''kKmM''"
  shows "\<not> cc_match (OneOf [Digit, Lit CHR ''.'', Lit CHR '','']) c \<and>
         cc_match (OneOf [LitI CHR ''k'', LitI CHR ''M'']) c \<and>
         lower_str [c] = (if c \<in> set ''kK'' then ''k'' else ''m'')"
proof -
  from assms have "c = CHR ''k'' \<or> c = CHR ''K'' \<or> c = CHR ''m'' \<or> c = CHR ''M''"
    by simp
  then show ?thesis
    by (elim disjE) (simp_all add: is_digit_def lower_char_def lower_str_def)
qed

lemma search_total_votes_suffix:
  assumes "ds \<noteq> []" "list_all is_digit ds" "c \<in> set ''kKmM''"
  shows "re_search total_votes_pattern (''Total votes: '' @ ds @ [c]) = Some ([ds, [c]], [])"
proof -
  from assms(1) obtain d ds' where ds: "ds = d # ds'" by (cases ds) auto
  with assms(2) have d: "is_digit d" and ds': "list_all is_digit ds'" by simp_all
  let ?num = "OneOf [Digit, Lit CHR ''.'', Lit CHR '','']"
  let ?suf = "OneOf [LitI CHR ''k'', LitI CHR ''M'']"
  let ?ts = "[GClose, GOpen, Opt ?suf, GClose]"
  note c = suffix_chars[OF assms(3)]
  have tail: "matchp (Star ?num # ?ts) [c] [] (Some (rev ds' @ [d])) = Some ([ds, [c]], [])"
    using c by (simp add: ds del: cc_match.simps)
  have "list_all (cc_match ?num) ds'"
    using ds' by (induction ds') auto
  then have run: "matchp (Star ?num # ?ts) (ds' @ [c]) [] (Some [d]) = Some ([ds, [c]], [])"
    using tail by (rule matchp_star_run)
  have sep: "\<not> cc_match (OneOf [Lit CHR '':'', Space]) d" "cc_match ?num d"
    using d digit_not_sep[OF d] by simp_all
  have pre: "matchp (lit_i ''Total votes'' @ ts') (''Total votes'' @ s') [] None
      = matchp ts' s' [] None" for ts' s'
    by (simp add: lit_i_def lower_char_def)
  have skip: "cc_match (OneOf [Lit CHR '':'', Space]) CHR '':''"
    "cc_match (OneOf [Lit CHR '':'', Space]) CHR '' ''"
    by (simp_all add: is_space_def)
  have "matchp total_votes_pattern (''Total votes: '' @ ds @ [c]) [] None = Some ([ds, [c]], [])"
    unfolding total_votes_pattern_def
    using pre[of _ "'': '' @ ds @ [c]"] sep run skip
    by (simp add: ds del: cc_match.simps)
  then show ?thesis by simp
qed


text \<open>
  C9 (as amended). The suffix is matched without regard to case (\<open>re.IGNORECASE\<close>) and
  lower-cased before the comparison, so \<open>k\<close>, \<open>K\<close> scale a count written in digits by a
  thousand and \<open>m\<close>, \<open>M\<close> by a million; whatever the text, the result is a string.
\<close>

theorem total_votes_suffix_any_case:
  assumes "ds \<noteq> []" and "list_all is_digit ds"
  shows "extract_total_votes (''Total votes: '' @ ds @ ''k'') = scaled_votes ds 1000 \<and>
         extract_total_votes (''Total votes: '' @ ds @ ''K'') = scaled_votes ds 1000 \<and>
         extract_total_votes (''Total votes: '' @ ds @ ''m'') = scaled_votes ds 1000000 \<and>
         extract_total_votes (''Total votes: '' @ ds @ ''M'') = scaled_votes ds 1000000 \<and>
         (\<forall>text. \<exists>s. extract_total_votes text = PStr s)"
proof -
  have "extract_total_votes (''Total votes: '' @ ds @ [c]) =
        (if c \<in> set ''kK'' then scaled_votes ds 1000 else scaled_votes ds 1000000)"
    if "c \<in> set ''kKmM''" for c
    unfolding extract_total_votes_def search_total_votes_suffix[OF assms that]
    using suffix_chars[OF that] by (simp add: filter_digits[OF assms(2)])
  from this[of "CHR ''k''"] this[of "CHR ''K''"] this[of "CHR ''m''"] this[of "CHR ''M''"]
  show ?thesis
    using total_votes_is_str by simp
qed

theorem total_votes_suffix_any_case_witness:
  "extract_total_votes ''Total votes: 121K'' = scaled_votes ''121'' 1000 \<and>
   extract_total_votes ''Total votes: 121m'' = scaled_votes ''121'' 1000000 \<and>
   scaled_votes ''121'' 1000 = PStr ''121000''"
  using total_votes_suffix_any_case [of "''121''"]
  by (simp add: is_digit_def scaled_votes_121)

theorem total_votes_upper_k_counterexample:
  "extract_total_votes ''Total votes: 121K'' = PStr ''121000'' \<and>
   extract_total_votes ''Total votes: 121K'' \<noteq> PStr ''121'' \<and>
   extract_total_votes ''Total votes: 2.3m'' = PStr ''2300000'' \<and>
   extract_total_votes ''Total votes: 2.3m'' \<noteq> PStr ''2.3''"
proof -
  have a: "extract_total_votes ''Total votes: 121K'' = PStr ''121000''"
    unfolding extract_total_votes_def search_total_votes_values
    by (simp add: scaled_votes_121 lower_str_def lower_char_def)
  have b: "extract_total_votes ''Total votes: 2.3m'' = PStr ''2300000''"
    unfolding extract_total_votes_def search_total_votes_values
    by (simp add: scaled_votes_2_3 lower_str_def lower_char_def)
  show ?thesis unfolding a b by simp
qed

section \<open>The browser\<close>

text \<open>
  The scraper drives a browser through Selenium. Whatever the browser and the site answer
  is outside the program, so the driver is a parameter: a record of primitives over a
  world \<open>'w\<close>, each returning its answer or the exception it raises, and the next world.
\<close>

type_synonym elem = nat
type_synonym window = string

datatype strategy = CSS_SELECTOR | XPATH

datatype exn =
    TimeoutException
  | ElementClickInterceptedException
  | StaleElementReferenceException
  | WebDriverException
  | IndexError
  | KeyError
  | TypeError
  | OtherException
  | KeyboardInterrupt

text \<open>
  The first four are \<open>selenium.common.exceptions\<close> classes, \<open>WebDriverException\<close> standing
  for itself and its other subclasses. \<open>KeyboardInterrupt\<close> is the one exception here that
  is not an \<open>Exception\<close>.
\<close>

fun is_Exception :: "exn \<Rightarrow> bool" where
  "is_Exception KeyboardInterrupt = False"
| "is_Exception _ = True"


datatype action =
    AWaitPresence strategy string
  | AWaitPresenceAll strategy string
  | AFindElements strategy string
  | AElemFindElements elem strategy string
  | AText elem
  | AGetAttribute elem string
  | AClick elem
  | AScript string "elem option"
  | ASleep nat
  | AGet string
  | AWindowHandles
  | ASwitchTo window
  | AClose
  | ASessionAlive
  | AQuit
  | ANewChrome
  | AImplicitlyWait
  | ACurrentWindowHandle
  | ADismissCookies
  | ARandom
  | AExtract string

record 'w driver =
  wait_presence :: "strategy \<Rightarrow> string \<Rightarrow> 'w \<Rightarrow> (exn + elem) \<times> 'w"
  wait_presence_all :: "strategy \<Rightarrow> string \<Rightarrow> 'w \<Rightarrow> (exn + unit) \<times> 'w"
  find_elements :: "strategy \<Rightarrow> string \<Rightarrow> 'w \<Rightarrow> (exn + elem list) \<times> 'w"
  elem_find_elements :: "elem \<Rightarrow> strategy \<Rightarrow> string \<Rightarrow> 'w \<Rightarrow> (exn + elem list) \<times> 'w"
  elem_text :: "elem \<Rightarrow> 'w \<Rightarrow> (exn + string) \<times> 'w"
  elem_get_attribute :: "elem \<Rightarrow> string \<Rightarrow> 'w \<Rightarrow> (exn + string option) \<times> 'w"
  elem_click :: "elem \<Rightarrow> 'w \<Rightarrow> (exn + unit) \<times> 'w"
  execute_script :: "string \<Rightarrow> elem option \<Rightarrow> 'w \<Rightarrow> (exn + pyval) \<times> 'w"
  time_sleep :: "nat \<Rightarrow> 'w \<Rightarrow> (exn + unit) \<times> 'w"
  driver_get :: "string \<Rightarrow> 'w \<Rightarrow> (exn + unit) \<times> 'w"
  window_handles :: "'w \<Rightarrow> (exn + window list) \<times> 'w"
  switch_to_window :: "window \<Rightarrow> 'w \<Rightarrow> (exn + unit) \<times> 'w"
  driver_close :: "'w \<Rightarrow> (exn + unit) \<times> 'w"
  session_alive :: "'w \<Rightarrow> (exn + bool) \<times> 'w"
  driver_quit :: "'w \<Rightarrow> (exn + unit) \<times> 'w"
  new_chrome :: "'w \<Rightarrow> (exn + unit) \<times> 'w"
  implicitly_wait :: "'w \<Rightarrow> (exn + unit) \<times> 'w"
  current_window_handle :: "'w \<Rightarrow> (exn + window) \<times> 'w"
  dismiss_cookies :: "'w \<Rightarrow> (exn + bool) \<times> 'w"
  random_uniform :: "'w \<Rightarrow> (exn + nat) \<times> 'w"
  extract_field :: "string \<Rightarrow> 'w \<Rightarrow> (exn + pyval) \<times> 'w"
  elapsed :: "'w \<Rightarrow> nat"

text \<open>
  What a call to the driver gave: the exception it raised, or that it returned; for a
  wait on one element, the element that was found.
\<close>

datatype outcome = Raised exn | Returned | Found elem

record 'w bstate =
  world :: 'w
  clock :: nat
  trace :: "(action \<times> outcome) list"

type_synonym ('w, 'a) prog = "'w bstate \<Rightarrow> (exn + 'a) \<times> 'w bstate"

definition ret :: "'a \<Rightarrow> ('w, 'a) prog" where
  "ret x s = (Inr x, s)"

definition raise :: "exn \<Rightarrow> ('w, 'a) prog" where
  "raise e s = (Inl e, s)"

definition bnd :: "('w, 'a) prog \<Rightarrow> ('a \<Rightarrow> ('w, 'b) prog) \<Rightarrow> ('w, 'b) prog" where
  "bnd m f s = (case m s of (Inl e, s') \<Rightarrow> (Inl e, s') | (Inr x, s') \<Rightarrow> f x s')"

definition catch :: "('w, 'a) prog \<Rightarrow> (exn \<Rightarrow> ('w, 'a) prog) \<Rightarrow> ('w, 'a) prog" where
  "catch m h s = (case m s of (Inl e, s') \<Rightarrow> h e s' | (Inr x, s') \<Rightarrow> (Inr x, s'))"

definition call :: "'w driver \<Rightarrow> action \<Rightarrow> ('w \<Rightarrow> (exn + 'a) \<times> 'w) \<Rightarrow> ('w, 'a) prog" where
  "call d a f s =
     (case f (world s) of
        (r, w) \<Rightarrow>
          (r, \<lparr>world = w, clock = clock s + elapsed d w,
               trace = trace s @ [(a, case r of Inl e \<Rightarrow> Raised e | Inr _ \<Rightarrow> Returned)]\<rparr>))"

text \<open>The wait for the presence of one element; the trace keeps the element found.\<close>

definition wait_for :: "'w driver \<Rightarrow> strategy \<Rightarrow> string \<Rightarrow> ('w, elem) prog" where
  "wait_for d how sel s =
     (case wait_presence d how sel (world s) of
        (r, w) \<Rightarrow>
          (r, \<lparr>world = w, clock = clock s + elapsed d w,
               trace = trace s @ [(AWaitPresence how sel,
                                   case r of Inl e \<Rightarrow> Raised e | Inr elt \<Rightarrow> Found elt)]\<rparr>))"

text \<open>
  \<open>time.sleep\<close>, in milliseconds: after it the clock has advanced by the time asked for
  (and by what the call itself took). Like every primitive it can raise, which is how a
  \<open>KeyboardInterrupt\<close> reaches the program.
\<close>

definition py_sleep :: "'w driver \<Rightarrow> nat \<Rightarrow> ('w, unit) prog" where
  "py_sleep d ms s =
     (case call d (ASleep ms) (time_sleep d ms) s of
        (Inl e, s') \<Rightarrow> (Inl e, s')
      | (Inr u, s') \<Rightarrow> (Inr u, s'\<lparr>clock := clock s' + ms\<rparr>))"

subsection \<open>Configuration (config.py)\<close>

definition dq :: string where
  "dq = [CHR 0x22]"

definition sq :: string where
  "sq = [CHR 0x27]"

definition DROPDOWN_WAIT_TIME :: nat where "DROPDOWN_WAIT_TIME = 1500"
definition SCROLL_PAUSE_TIME :: nat where "SCROLL_PAUSE_TIME = 500"
definition PAGE_RELOAD_WAIT :: nat where "PAGE_RELOAD_WAIT = 4000"
definition TAB_OPEN_WAIT :: nat where "TAB_OPEN_WAIT = 1000"

definition SEASON_DROPDOWN_SELECTOR :: string where
  "SEASON_DROPDOWN_SELECTOR = ''div.Dropdown.kdhXwd button.DropdownButton.jQruaf''"

definition CURRENT_SEASON_TEXT_SELECTOR :: string where
  "CURRENT_SEASON_TEXT_SELECTOR =
     ''div.Dropdown.kdhXwd button.DropdownButton.jQruaf div.Text.nZQAT''"

text \<open>\<open>SEASON_OPTION_XPATH.format(season=season)\<close>\<close>

definition SEASON_OPTION_XPATH :: "string \<Rightarrow> string" where
  "SEASON_OPTION_XPATH season =
     ''//ul[@role='' @ dq @ ''listbox'' @ dq @ '']//li[@role='' @ dq @ ''option'' @ dq @
     '' and normalize-space(text())='' @ dq @ season @ dq @ '']''"

definition ROUND_DROPDOWN_BUTTON :: string where
  "ROUND_DROPDOWN_BUTTON = ''div[data-panelid='round'] .DropdownButton''"

definition ROUND_TEXT_SELECTOR :: string where
  "ROUND_TEXT_SELECTOR =
     ''div[data-panelid='' @ dq @ ''round'' @ dq @
     ''] div.Dropdown.gSFIyj button.DropdownButton.jQruaf div.Text.nZQAT''"

definition NEXT_ROUND_ARROW :: string where
  "NEXT_ROUND_ARROW = ''div.Wrapper.d_flex.ai_center button.Button.iCnTrv:last-child''"

definition PREV_ROUND_ARROW :: string where
  "PREV_ROUND_ARROW = ''div.Wrapper.d_flex.ai_center button.Button.iCnTrv:first-child''"

definition MATCH_LINK_SELECTOR :: string where
  "MATCH_LINK_SELECTOR = ''a[class*='event-hl-']''"

subsection \<open>Driver utilities (scraper.py, 107-149)\<close>

definition SCROLL_INTO_VIEW :: string where
  "SCROLL_INTO_VIEW = ''arguments[0].scrollIntoView({block:'center'});''"

definition JS_CLICK :: string where
  "JS_CLICK = ''arguments[0].click();''"

text \<open>The body of the \<open>try\<close> in \<open>safe_click\<close>, up to \<open>elt.click()\<close>.\<close>

definition click_attempt :: "'w driver \<Rightarrow> elem \<Rightarrow> ('w, unit) prog" where
  "click_attempt d elt =
     bnd (call d (AScript SCROLL_INTO_VIEW (Some elt)) (execute_script d SCROLL_INTO_VIEW (Some elt)))
       (\<lambda>_. bnd (py_sleep d 200)
         (\<lambda>_. call d (AClick elt) (elem_click d elt)))"

text \<open>
  \<open>safe_click\<close>: the loop over \<open>range(retries)\<close>, by the number of attempts left. An
  intercepted or stale click falls back to a click by script; any other \<open>Exception\<close>, and
  a failed fallback, sleeps and goes round again. What is not an \<open>Exception\<close> propagates.
\<close>

primrec safe_click_loop :: "'w driver \<Rightarrow> elem \<Rightarrow> nat \<Rightarrow> ('w, bool) prog" where
  "safe_click_loop d elt 0 = ret False"
| "safe_click_loop d elt (Suc n) =
     catch (bnd (click_attempt d elt) (\<lambda>_. ret True))
       (\<lambda>e. if e = ElementClickInterceptedException \<or> e = StaleElementReferenceException
            then catch
                   (bnd (call d (AScript JS_CLICK (Some elt)) (execute_script d JS_CLICK (Some elt)))
                      (\<lambda>_. ret True))
                   (\<lambda>e2. if is_Exception e2
                         then bnd (py_sleep d 500) (\<lambda>_. safe_click_loop d elt n)
                         else raise e2)
            else if is_Exception e
            then bnd (py_sleep d 500) (\<lambda>_. safe_click_loop d elt n)
            else raise e)"

definition safe_click :: "'w driver \<Rightarrow> elem \<Rightarrow> ('w, bool) prog" where
  "safe_click d elt = safe_click_loop d elt 3"

definition safe_find :: "'w driver \<Rightarrow> strategy \<Rightarrow> string \<Rightarrow> ('w, elem option) prog" where
  "safe_find d how sel =
     catch (bnd (wait_for d how sel) (\<lambda>elt. ret (Some elt)))
       (\<lambda>e. if e = TimeoutException then ret None else raise e)"

definition safe_find_all :: "'w driver \<Rightarrow> strategy \<Rightarrow> string \<Rightarrow> ('w, elem list) prog" where
  "safe_find_all d how sel =
     catch
       (bnd (call d (AWaitPresenceAll how sel) (wait_presence_all d how sel))
          (\<lambda>_. call d (AFindElements how sel) (find_elements d how sel)))
       (\<lambda>e. if e = TimeoutException then ret [] else raise e)"

definition elt_text :: "'w driver \<Rightarrow> elem \<Rightarrow> ('w, string) prog" where
  "elt_text d elt = call d (AText elt) (elem_text d elt)"

subsection \<open>Season and round navigation (scraper.py, 152-217)\<close>

definition is_season_selected :: "'w driver \<Rightarrow> string \<Rightarrow> ('w, bool) prog" where
  "is_season_selected d season =
     bnd (safe_find d CSS_SELECTOR CURRENT_SEASON_TEXT_SELECTOR)
       (\<lambda>elt. case elt of
          None \<Rightarrow> ret False
        | Some e \<Rightarrow> bnd (elt_text d e) (\<lambda>t. ret (strip t = season)))"

definition select_season :: "'w driver \<Rightarrow> string \<Rightarrow> ('w, bool) prog" where
  "select_season d season =
     bnd (is_season_selected d season)
       (\<lambda>selected. if selected then ret True
        else bnd (safe_find d CSS_SELECTOR SEASON_DROPDOWN_SELECTOR)
          (\<lambda>btn. case btn of
             None \<Rightarrow> ret False
           | Some b \<Rightarrow> bnd (safe_click d b)
               (\<lambda>opened. if \<not> opened then ret False
                else bnd (py_sleep d DROPDOWN_WAIT_TIME)
                  (\<lambda>_. bnd (safe_find d XPATH (SEASON_OPTION_XPATH season))
                    (\<lambda>opt. case opt of
                       None \<Rightarrow> ret False
                     | Some ob \<Rightarrow> bnd (safe_click d ob)
                         (\<lambda>chosen. if \<not> chosen then ret False
                          else bnd (py_sleep d PAGE_RELOAD_WAIT) (\<lambda>_. ret True)))))))"

text \<open>\<open>r"Round (\d+)"\<close>\<close>

definition round_pattern :: "tok list" where
  "round_pattern = lit ''Round '' @ [GOpen, Plus Digit, GClose]"

definition extract_round :: "'w driver \<Rightarrow> ('w, int option) prog" where
  "extract_round d =
     bnd (safe_find d CSS_SELECTOR ROUND_TEXT_SELECTOR)
       (\<lambda>elt. case elt of
          None \<Rightarrow> ret None
        | Some e \<Rightarrow> bnd (elt_text d e)
            (\<lambda>t. ret (case re_search round_pattern (strip t) of
                       Some (g # _, _) \<Rightarrow> Some (int (int_of_digits g))
                     | _ \<Rightarrow> None)))"

text \<open>\<open>str(n)\<close> of an integer.\<close>

definition show_int :: "int \<Rightarrow> string" where
  "show_int i = (if i < 0 then CHR ''-'' # show_nat (nat (- i)) else show_nat (nat i))"

definition ROUND_OPTION_XPATH :: "int \<Rightarrow> string" where
  "ROUND_OPTION_XPATH target =
     ''//ul[@role='listbox']//li[@role='option' and text()='Round '' @ show_int target @ ''']''"

text \<open>The direct selection of the round in the dropdown; \<open>True\<close> when it was clicked.\<close>

definition round_by_dropdown :: "'w driver \<Rightarrow> int \<Rightarrow> ('w, bool) prog" where
  "round_by_dropdown d target =
     bnd (safe_find d CSS_SELECTOR ROUND_DROPDOWN_BUTTON)
       (\<lambda>btn. case btn of
          None \<Rightarrow> ret False
        | Some b \<Rightarrow> bnd (safe_click d b)
            (\<lambda>opened. if \<not> opened then ret False
             else bnd (py_sleep d DROPDOWN_WAIT_TIME)
               (\<lambda>_. bnd (safe_find d XPATH (ROUND_OPTION_XPATH target))
                 (\<lambda>opt. case opt of
                    None \<Rightarrow> ret False
                  | Some ob \<Rightarrow> bnd (safe_click d ob)
                      (\<lambda>chosen. if \<not> chosen then ret False
                       else bnd (py_sleep d PAGE_RELOAD_WAIT) (\<lambda>_. ret True))))))"

text \<open>The loop \<open>for _ in range(abs(diff))\<close>, by the number of steps left.\<close>

primrec arrow_steps :: "'w driver \<Rightarrow> string \<Rightarrow> nat \<Rightarrow> ('w, bool) prog" where
  "arrow_steps d selector 0 = ret True"
| "arrow_steps d selector (Suc n) =
     bnd (safe_find d CSS_SELECTOR selector)
       (\<lambda>arrow. case arrow of
          None \<Rightarrow> ret False
        | Some a \<Rightarrow> bnd (safe_click d a)
            (\<lambda>clicked. if \<not> clicked then ret False
             else bnd (py_sleep d SCROLL_PAUSE_TIME) (\<lambda>_. arrow_steps d selector n)))"

definition navigate_to_round :: "'w driver \<Rightarrow> int \<Rightarrow> ('w, bool) prog" where
  "navigate_to_round d target =
     bnd (extract_round d)
       (\<lambda>current. if current = Some target then ret True
        else bnd (round_by_dropdown d target)
          (\<lambda>selected. if selected then ret True
           else
             let diff = target - (case current of None \<Rightarrow> 0 | Some c \<Rightarrow> c);
                 selector = (if 0 < diff then NEXT_ROUND_ARROW else PREV_ROUND_ARROW)
             in bnd (arrow_steps d selector (nat \<bar>diff\<bar>))
                  (\<lambda>stepped. if \<not> stepped then ret False
                   else bnd (py_sleep d PAGE_RELOAD_WAIT) (\<lambda>_. ret True))))"

subsection \<open>Match links (scraper.py, 219-231)\<close>

text \<open>\<open>sub in s\<close>, \<open>s.startswith(p)\<close>, \<open>s.rstrip('/')\<close> and \<open>s.split('/')[-1]\<close>.\<close>

fun contains :: "string \<Rightarrow> string \<Rightarrow> bool" where
  "contains sub [] = (sub = [])"
| "contains sub (c # cs) = (take (length sub) (c # cs) = sub \<or> contains sub cs)"

definition startswith :: "string \<Rightarrow> string \<Rightarrow> bool" where
  "startswith s p = (take (length p) s = p)"

definition rstrip_slash :: "string \<Rightarrow> string" where
  "rstrip_slash s = rev (dropWhile (\<lambda>c. c = CHR ''/'') (rev s))"

definition last_segment :: "string \<Rightarrow> string" where
  "last_segment s = rev (takeWhile (\<lambda>c. c \<noteq> CHR ''/'') (rev s))"

text \<open>\<open>r'#id:(\d+)'\<close>\<close>

definition id_pattern :: "tok list" where
  "id_pattern = lit ''#id:'' @ [GOpen, Plus Digit, GClose]"

record link =
  url :: string
  match_id :: string

text \<open>What one link element contributes: nothing, or its absolute URL and match ID.\<close>

definition link_of_href :: "string option \<Rightarrow> link list" where
  "link_of_href attr =
     (let href = (case attr of None \<Rightarrow> [] | Some h \<Rightarrow> h)
      in if contains ''/football/match/'' href
         then [\<lparr>url = (if startswith href ''http'' then href
                        else ''https://www.sofascore.com'' @ href),
                 match_id = (case re_search id_pattern href of
                               Some (g # _, _) \<Rightarrow> g
                             | _ \<Rightarrow> last_segment (rstrip_slash href))\<rparr>]
         else [])"

primrec collect_links :: "'w driver \<Rightarrow> elem list \<Rightarrow> ('w, link list) prog" where
  "collect_links d [] = ret []"
| "collect_links d (e # es) =
     bnd (call d (AGetAttribute e ''href'') (elem_get_attribute d e ''href''))
       (\<lambda>attr. bnd (collect_links d es) (\<lambda>ls. ret (link_of_href attr @ ls)))"

definition get_match_links :: "'w driver \<Rightarrow> ('w, link list) prog" where
  "get_match_links d =
     bnd (safe_find_all d CSS_SELECTOR MATCH_LINK_SELECTOR) (collect_links d)"

subsection \<open>Statistics (scraper.py, 505-610)\<close>

definition run_script :: "'w driver \<Rightarrow> string \<Rightarrow> elem option \<Rightarrow> ('w, pyval) prog" where
  "run_script d script arg = call d (AScript script arg) (execute_script d script arg)"

definition SCROLL_HEIGHT :: string where
  "SCROLL_HEIGHT = ''return arguments[0].scrollHeight''"

definition SCROLL_TO_BOTTOM :: string where
  "SCROLL_TO_BOTTOM = ''arguments[0].scrollTop = arguments[0].scrollHeight''"

text \<open>The loop of \<open>_scroll_container\<close>, by the number of scrolls left.\<close>

primrec scroll_loop :: "'w driver \<Rightarrow> elem \<Rightarrow> nat \<Rightarrow> pyval \<Rightarrow> ('w, unit) prog" where
  "scroll_loop d elt 0 height = ret ()"
| "scroll_loop d elt (Suc n) height =
     bnd (run_script d SCROLL_TO_BOTTOM (Some elt))
       (\<lambda>_. bnd (py_sleep d SCROLL_PAUSE_TIME)
         (\<lambda>_. bnd (run_script d SCROLL_HEIGHT (Some elt))
           (\<lambda>new. if new = height then ret () else scroll_loop d elt n new)))"

definition scroll_container :: "'w driver \<Rightarrow> elem \<Rightarrow> ('w, unit) prog" where
  "scroll_container d elt =
     bnd (run_script d SCROLL_HEIGHT (Some elt)) (scroll_loop d elt 5)"

definition STAT_CONTAINER :: string where
  "STAT_CONTAINER = ''div.Box.Flex.gQxTzO''"

definition STAT_ROW :: string where
  "STAT_ROW = ''div.Box.Flex.heNsMA.bnpRyo''"

definition HOME_VALUE :: string where
  "HOME_VALUE = ''bdi.Box.iQnHnj span.Text''"

definition STAT_NAMES :: string where
  "STAT_NAMES = ''span.Text.lluFbU, span.Text.eSKwCR, span.Text.llXWMP''"

definition AWAY_VALUE :: string where
  "AWAY_VALUE = ''bdi.Box.fdyVPU span.Text''"

text \<open>The first loop of \<open>_extract_stats_view\<close>: up to three looks for the container.\<close>

primrec find_container :: "'w driver \<Rightarrow> nat \<Rightarrow> ('w, elem option) prog" where
  "find_container d 0 = ret None"
| "find_container d (Suc n) =
     bnd (safe_find d CSS_SELECTOR STAT_CONTAINER)
       (\<lambda>cont. case cont of
          Some c \<Rightarrow> ret (Some c)
        | None \<Rightarrow> bnd (run_script d ''window.scrollBy(0, 400);'' None)
            (\<lambda>_. bnd (py_sleep d 2000) (\<lambda>_. find_container d n)))"

text \<open>The second loop: up to three looks for rows, until there is one.\<close>

primrec find_rows :: "'w driver \<Rightarrow> nat \<Rightarrow> ('w, elem list) prog" where
  "find_rows d 0 = ret []"
| "find_rows d (Suc n) =
     bnd (safe_find_all d CSS_SELECTOR STAT_ROW)
       (\<lambda>rows. if rows \<noteq> [] then ret rows
        else bnd (py_sleep d 2000) (\<lambda>_. find_rows d n))"

text \<open>\<open>span[0].text.strip() if span else "N/A"\<close> for the spans found under a row.\<close>

definition first_text :: "'w driver \<Rightarrow> elem \<Rightarrow> string \<Rightarrow> ('w, string) prog" where
  "first_text d row sel =
     bnd (call d (AElemFindElements row CSS_SELECTOR sel) (elem_find_elements d row CSS_SELECTOR sel))
       (\<lambda>spans. case spans of
          [] \<Rightarrow> ret ''N/A''
        | sp # _ \<Rightarrow> bnd (elt_text d sp) (\<lambda>t. ret (strip t)))"

definition read_row :: "'w driver \<Rightarrow> elem \<Rightarrow> ('w, pyval) prog" where
  "read_row d row =
     bnd (first_text d row HOME_VALUE)
       (\<lambda>home_value. bnd (first_text d row STAT_NAMES)
         (\<lambda>name. bnd (first_text d row AWAY_VALUE)
           (\<lambda>away_value. ret (PDict [(''name'', PStr name),
                                    (''home_value'', PStr home_value),
                                    (''away_value'', PStr away_value)]))))"

text \<open>The loop over the rows: a row whose reading raises an \<open>Exception\<close> is left out.\<close>

primrec read_rows :: "'w driver \<Rightarrow> elem list \<Rightarrow> ('w, pyval list) prog" where
  "read_rows d [] = ret []"
| "read_rows d (r # rs) =
     bnd (catch (bnd (read_row d r) (\<lambda>st. ret [st]))
            (\<lambda>e. if is_Exception e then ret [] else raise e))
       (\<lambda>st. bnd (read_rows d rs) (\<lambda>sts. ret (st @ sts)))"

definition extract_stats_view :: "'w driver \<Rightarrow> ('w, pyval list) prog" where
  "extract_stats_view d =
     bnd (run_script d ''window.scrollTo(0, document.body.scrollHeight / 2);'' None)
       (\<lambda>_. bnd (py_sleep d 1500)
         (\<lambda>_. bnd (find_container d 3)
           (\<lambda>cont. bnd (case cont of None \<Rightarrow> ret () | Some c \<Rightarrow> scroll_container d c)
             (\<lambda>_. bnd (find_rows d 3) (read_rows d)))))"

text \<open>
  \<open>wait_for_stat_rows\<close> polls until the clock reaches \<open>end_time\<close>. \<open>poll_freq\<close> is left at
  its default of half a second by the only caller. The result is the rows when enough
  were found (the source then returns them or \<open>True\<close>, as \<open>return_rows\<close> says) and \<open>None\<close>
  on a timeout (the source returns \<open>[]\<close> or \<open>False\<close>).
\<close>

definition POLL_FREQ :: nat where
  "POLL_FREQ = 500"

lemma call_clock: "call d a f s = (r, s') \<Longrightarrow> clock s \<le> clock s'"
  by (auto simp: call_def split: prod.splits)

lemma wait_for_clock: "wait_for d how sel s = (r, s') \<Longrightarrow> clock s \<le> clock s'"
  by (auto simp: wait_for_def split: prod.splits)

lemma py_sleep_clock: "py_sleep d ms s = (r, s') \<Longrightarrow> clock s \<le> clock s'"
  by (auto simp: py_sleep_def split: prod.splits sum.splits dest: call_clock)

lemma py_sleep_clock_ok: "py_sleep d ms s = (Inr u, s') \<Longrightarrow> clock s + ms \<le> clock s'"
  by (auto simp: py_sleep_def split: prod.splits sum.splits dest: call_clock)

lemma safe_find_all_clock: "safe_find_all d how sel s = (r, s') \<Longrightarrow> clock s \<le> clock s'"
  by (auto simp: safe_find_all_def catch_def bnd_def ret_def raise_def
      split: prod.splits sum.splits if_splits dest!: call_clock)

function wait_loop :: "'w driver \<Rightarrow> nat \<Rightarrow> nat \<Rightarrow> ('w, elem list option) prog" where
  "wait_loop d min_rows end_time s =
     (if clock s < end_time
      then (case safe_find_all d CSS_SELECTOR STAT_ROW s of
              (Inl e, s1) \<Rightarrow> (Inl e, s1)
            | (Inr rows, s1) \<Rightarrow>
                if rows \<noteq> [] \<and> min_rows \<le> length rows then (Inr (Some rows), s1)
                else (case py_sleep d POLL_FREQ s1 of
                        (Inl e, s2) \<Rightarrow> (Inl e, s2)
                      | (Inr _, s2) \<Rightarrow> wait_loop d min_rows end_time s2))
      else (Inr None, s))"
  by pat_completeness auto
termination
proof (relation "measure (\<lambda>(d, min_rows, end_time, s). end_time - clock s)")
  show "wf (measure (\<lambda>(d, min_rows, end_time, s). end_time - clock s))"
    by simp
next
  fix d :: "'w driver" and min_rows end_time :: nat and s s1 s2 :: "'w bstate"
    and x y rows xa ya xb
  assume "clock s < end_time"
    and a: "(x, y) = safe_find_all d CSS_SELECTOR STAT_ROW s" "x = Inr rows"
    and b: "(xa, ya) = py_sleep d POLL_FREQ y" "xa = Inr xb"
  from a have "clock s \<le> clock y"
    using safe_find_all_clock[of d CSS_SELECTOR STAT_ROW s x y] by simp
  moreover from b have "clock y + POLL_FREQ \<le> clock ya"
    using py_sleep_clock_ok[of d POLL_FREQ y xb ya] by simp
  ultimately show "((d, min_rows, end_time, ya), (d, min_rows, end_time, s))
      \<in> measure (\<lambda>(d, min_rows, end_time, s). end_time - clock s)"
    using \<open>clock s < end_time\<close> by (simp add: POLL_FREQ_def)
qed

declare wait_loop.simps [simp del]

definition wait_for_stat_rows :: "'w driver \<Rightarrow> nat \<Rightarrow> nat \<Rightarrow> ('w, elem list option) prog" where
  "wait_for_stat_rows d min_rows timeout s = wait_loop d min_rows (clock s + timeout) s"

text \<open>\<open>f"div[data-tabid='{tab_id}']"\<close>\<close>

definition TAB_SELECTOR :: "int \<Rightarrow> string" where
  "TAB_SELECTOR tab_id = ''div[data-tabid='' @ sq @ show_int tab_id @ sq @ '']''"

text \<open>\<open>extract_with_retries\<close> inside \<open>_get_stats\<close>, by the number of attempts left.\<close>

primrec extract_with_retries :: "'w driver \<Rightarrow> int \<Rightarrow> nat \<Rightarrow> ('w, pyval list) prog" where
  "extract_with_retries d tab_id 0 = ret []"
| "extract_with_retries d tab_id (Suc n) =
     bnd (safe_find d CSS_SELECTOR (TAB_SELECTOR tab_id))
       (\<lambda>tab. bnd (case tab of None \<Rightarrow> ret False | Some t \<Rightarrow> safe_click d t)
         (\<lambda>clicked. bnd (if clicked
                         then bnd (wait_for_stat_rows d 10 20000) (\<lambda>rows. ret (rows \<noteq> None))
                         else ret False)
           (\<lambda>ready. if ready then extract_stats_view d
                    else bnd (py_sleep d 2000) (\<lambda>_. extract_with_retries d tab_id n))))"

record stats =
  overall :: "pyval list"
  first_half :: "pyval list"
  second_half :: "pyval list"

definition get_stats :: "'w driver \<Rightarrow> ('w, stats) prog" where
  "get_stats d =
     bnd (extract_stats_view d)
       (\<lambda>ov. bnd (extract_with_retries d 2 3)
         (\<lambda>fh. bnd (extract_with_retries d 3 3)
           (\<lambda>sh. ret \<lparr>overall = ov, first_half = fh, second_half = sh\<rparr>)))"

definition stats_dict :: "stats \<Rightarrow> pyval" where
  "stats_dict st =
     PDict [(''overall'', PList (overall st)),
            (''first_half'', PList (first_half st)),
            (''second_half'', PList (second_half st))]"

subsection \<open>One match in its own tab (scraper.py, 234-290)\<close>

type_synonym dict = "(string \<times> pyval) list"

text \<open>
  The extractors of the date and time, the teams, the venue, the referee, the odds and
  the crowd voting (scraper.py, 293-503) only question the driver and build a value; no
  claim depends on how. Each is one primitive of the driver here, named by the key it
  fills. The statistics are read by \<open>get_stats\<close> above.
\<close>

definition get_field :: "'w driver \<Rightarrow> string \<Rightarrow> ('w, pyval) prog" where
  "get_field d key = call d (AExtract key) (extract_field d key)"

definition WINDOW_OPEN :: string where
  "WINDOW_OPEN = ''window.open('' @ sq @ sq @ '');''"

text \<open>The body of the \<open>try\<close>: open a tab, move to it, load the page, read the fields.\<close>

definition scrape_try :: "'w driver \<Rightarrow> string \<Rightarrow> int option \<Rightarrow> ('w, dict) prog" where
  "scrape_try d page matchday =
     bnd (run_script d WINDOW_OPEN None)
       (\<lambda>_. bnd (call d AWindowHandles (window_handles d))
         (\<lambda>hs. bnd (if hs = [] then raise IndexError else ret (last hs))
           (\<lambda>tab. bnd (call d (ASwitchTo tab) (switch_to_window d tab))
             (\<lambda>_. bnd (py_sleep d TAB_OPEN_WAIT)
               (\<lambda>_. bnd (call d (AGet page) (driver_get d page))
                 (\<lambda>_. bnd (py_sleep d 3000)
                   (\<lambda>_. bnd (get_field d ''date_time_info'')
                     (\<lambda>dt. bnd (get_field d ''teams'')
                       (\<lambda>tm. bnd (get_field d ''venue'')
                         (\<lambda>vn. bnd (get_field d ''referee'')
                           (\<lambda>rf. bnd (get_field d ''odds'')
                             (\<lambda>od. bnd (get_field d ''crowd_voting'')
                               (\<lambda>cv. bnd (get_stats d)
                                 (\<lambda>st. ret
                                   [(''matchday'', (case matchday of None \<Rightarrow> PNone | Some m \<Rightarrow> PInt m)),
                                    (''date_time_info'', dt),
                                    (''teams'', tm),
                                    (''venue'', vn),
                                    (''referee'', rf),
                                    (''odds'', od),
                                    (''crowd_voting'', cv),
                                    (''statistics'', stats_dict st)]))))))))))))))"

text \<open>
  The \<open>finally\<close>: when the session is alive and has windows, close the current one, go
  back to the original tab and wait a second. An \<open>Exception\<close> in there is logged and
  dropped.
\<close>

definition scrape_finally :: "'w driver \<Rightarrow> window \<Rightarrow> ('w, unit) prog" where
  "scrape_finally d original_tab =
     catch
       (bnd (call d ASessionAlive (session_alive d))
          (\<lambda>alive. if \<not> alive then ret ()
           else bnd (call d AWindowHandles (window_handles d))
             (\<lambda>hs. if hs = [] then ret ()
              else bnd (call d AClose (driver_close d))
                (\<lambda>_. bnd (call d (ASwitchTo original_tab) (switch_to_window d original_tab))
                  (\<lambda>_. py_sleep d 1000)))))
       (\<lambda>e. if is_Exception e then ret () else raise e)"

text \<open>
  What \<open>scrape_match\<close> hands back once the \<open>finally\<close> has run without raising: the data,
  the empty dictionary after an \<open>Exception\<close> (either \<open>except\<close> clause sets it), or the
  \<open>KeyboardInterrupt\<close> raised again.
\<close>

definition scrape_outcome :: "exn + dict \<Rightarrow> exn + dict" where
  "scrape_outcome r =
     (case r of
        Inr data \<Rightarrow> Inr data
      | Inl e \<Rightarrow> if is_Exception e then Inr [] else Inl e)"

definition scrape_match :: "'w driver \<Rightarrow> window \<Rightarrow> string \<Rightarrow> int option \<Rightarrow> ('w, dict) prog" where
  "scrape_match d original_tab page matchday =
     bnd (case matchday of None \<Rightarrow> extract_round d | Some m \<Rightarrow> ret (Some m))
       (\<lambda>md s. case scrape_try d page md s of
          (r, s1) \<Rightarrow>
            (case scrape_finally d original_tab s1 of
               (Inl e, s2) \<Rightarrow> (Inl e, s2)
             | (Inr _, s2) \<Rightarrow> (scrape_outcome r, s2)))"

subsection \<open>The store (persistence.py)\<close>

text \<open>
  Modelled from the spec: \<open>persistence.load_data\<close> and \<open>persistence.save_data\<close>, which are
  not among the sources. The file holds the array of records; loading is permissive (a
  missing file is the empty store and nothing is raised) and saving rewrites the whole
  snapshot.
\<close>

definition load_data :: "dict list option \<Rightarrow> dict list" where
  "load_data file = (case file of None \<Rightarrow> [] | Some records \<Rightarrow> records)"

definition save_data :: "dict list \<Rightarrow> dict list option" where
  "save_data records = Some records"

subsection \<open>The runner (runner.py)\<close>

text \<open>\<open>data[key] = value\<close> on a dictionary that keeps the order of insertion.\<close>

primrec dict_set :: "string \<Rightarrow> pyval \<Rightarrow> dict \<Rightarrow> dict" where
  "dict_set k v [] = [(k, v)]"
| "dict_set k v (p # ps) = (if fst p = k then (k, v) # ps else p # dict_set k v ps)"

record 'w run =
  browser :: "'w bstate"
  all_match_data :: "dict list"
  store_file :: "dict list option"
  scraped_ids :: "pyval set"

text \<open>Lifting a browser program to the state of the run.\<close>

definition on_browser :: "('w, 'a) prog \<Rightarrow> 'w run \<Rightarrow> (exn + 'a) \<times> 'w run" where
  "on_browser m st = (case m (browser st) of (r, b) \<Rightarrow> (r, st\<lparr>browser := b\<rparr>))"

text \<open>\<open>time.sleep(random.uniform(1, 3))\<close>\<close>

definition random_pause :: "'w driver \<Rightarrow> ('w, unit) prog" where
  "random_pause d =
     bnd (call d ARandom (random_uniform d)) (\<lambda>r. py_sleep d (1000 + r mod 2001))"

text \<open>
  The body of the loop over the links (runner.py, 38-64). A \<open>KeyboardInterrupt\<close> from
  \<open>scrape_match\<close> is raised again; any \<open>Exception\<close> leaves \<open>data = None\<close>.
\<close>

definition process_link :: "'w driver \<Rightarrow> window \<Rightarrow> int \<Rightarrow> link \<Rightarrow> 'w run \<Rightarrow> (exn + unit) \<times> 'w run" where
  "process_link d original_tab md l st =
     (let mid = PStr (match_id l) in
      if mid \<in> scraped_ids st then (Inr (), st)
      else
        (case on_browser (scrape_match d original_tab (url l) (Some md)) st of
           (Inl e, st1) \<Rightarrow>
             if is_Exception e then on_browser (random_pause d) st1 else (Inl e, st1)
         | (Inr data, st1) \<Rightarrow>
             if data \<noteq> []
             then
               (let record = dict_set ''source_url'' (PStr (url l)) (dict_set ''match_id'' mid data);
                    records = all_match_data st1 @ [record]
                in on_browser (random_pause d)
                     (st1\<lparr>all_match_data := records,
                          store_file := save_data records,
                          scraped_ids := insert mid (scraped_ids st1)\<rparr>))
             else on_browser (random_pause d) st1))"

primrec process_links :: "'w driver \<Rightarrow> window \<Rightarrow> int \<Rightarrow> link list \<Rightarrow> 'w run \<Rightarrow> (exn + unit) \<times> 'w run" where
  "process_links d original_tab md [] st = (Inr (), st)"
| "process_links d original_tab md (l # ls) st =
     (case process_link d original_tab md l st of
        (Inl e, st1) \<Rightarrow> (Inl e, st1)
      | (Inr _, st1) \<Rightarrow> process_links d original_tab md ls st1)"

text \<open>The body of the loop over the matchdays (runner.py, 29-64).\<close>

definition process_matchday :: "'w driver \<Rightarrow> window \<Rightarrow> int \<Rightarrow> 'w run \<Rightarrow> (exn + unit) \<times> 'w run" where
  "process_matchday d original_tab md st =
     (case on_browser (navigate_to_round d md) st of
        (Inl e, st1) \<Rightarrow> (Inl e, st1)
      | (Inr reached, st1) \<Rightarrow>
          if \<not> reached then (Inr (), st1)
          else (case on_browser (get_match_links d) st1 of
                  (Inl e, st2) \<Rightarrow> (Inl e, st2)
                | (Inr links, st2) \<Rightarrow> process_links d original_tab md links st2))"

primrec process_matchdays :: "'w driver \<Rightarrow> window \<Rightarrow> int list \<Rightarrow> 'w run \<Rightarrow> (exn + unit) \<times> 'w run" where
  "process_matchdays d original_tab [] st = (Inr (), st)"
| "process_matchdays d original_tab (md # mds) st =
     (case process_matchday d original_tab md st of
        (Inl e, st1) \<Rightarrow> (Inl e, st1)
      | (Inr _, st1) \<Rightarrow> process_matchdays d original_tab mds st1)"

text \<open>
  \<open>{m['match_id'] for m in scraper.all_match_data}\<close>: a record without the key raises
  \<open>KeyError\<close>, a value that cannot be hashed \<open>TypeError\<close>.
\<close>

fun hashable :: "pyval \<Rightarrow> bool" where
  "hashable (PList _) = False"
| "hashable (PDict _) = False"
| "hashable _ = True"

primrec seen_ids :: "dict list \<Rightarrow> exn + pyval set" where
  "seen_ids [] = Inr {}"
| "seen_ids (m # ms) =
     (case map_of m ''match_id'' of
        None \<Rightarrow> Inl KeyError
      | Some v \<Rightarrow>
          if \<not> hashable v then Inl TypeError
          else (case seen_ids ms of Inl e \<Rightarrow> Inl e | Inr ids \<Rightarrow> Inr (insert v ids)))"

definition BASE_URL :: string where
  "BASE_URL = ''https://www.sofascore.com/tournament/football/england/premier-league/17''"

text \<open>
  \<open>setup_driver\<close> (scraper.py, 45-71) after the browser has been started: the implicit
  wait is set and the handle of the original tab is kept.
\<close>

definition setup_driver :: "'w driver \<Rightarrow> ('w, window) prog" where
  "setup_driver d =
     bnd (call d AImplicitlyWait (implicitly_wait d))
       (\<lambda>_. call d ACurrentWindowHandle (current_window_handle d))"

text \<open>
  The \<open>try\<close> of \<open>main\<close> (runner.py, 17-64), from the second statement of
  \<open>setup_driver\<close> on. \<open>dismiss_cookies\<close> is a primitive of the driver.
\<close>

definition main_try :: "'w driver \<Rightarrow> int \<Rightarrow> int \<Rightarrow> string \<Rightarrow> 'w run \<Rightarrow> (exn + unit) \<times> 'w run" where
  "main_try d start_matchday end_matchday season st =
     (case on_browser
             (bnd (setup_driver d)
                (\<lambda>tab. bnd (call d (AGet BASE_URL) (driver_get d BASE_URL))
                  (\<lambda>_. bnd (call d ADismissCookies (dismiss_cookies d))
                    (\<lambda>_. bnd (select_season d season) (\<lambda>ok. ret (tab, ok)))))) st of
        (Inl e, st1) \<Rightarrow> (Inl e, st1)
      | (Inr (tab, ok), st1) \<Rightarrow>
          if \<not> ok then (Inr (), st1)
          else (case seen_ids (all_match_data st1) of
                  Inl e \<Rightarrow> (Inl e, st1)
                | Inr ids \<Rightarrow>
                    process_matchdays d tab [start_matchday..end_matchday]
                      (st1\<lparr>scraped_ids := ids\<rparr>)))"

text \<open>\<open>scraper.quit()\<close> (scraper.py, 73-83), for a driver that exists.\<close>

definition quit :: "'w driver \<Rightarrow> ('w, unit) prog" where
  "quit d =
     catch
       (bnd (call d ASessionAlive (session_alive d))
          (\<lambda>alive. if alive then call d AQuit (driver_quit d) else ret ()))
       (\<lambda>e. if is_Exception e then ret () else raise e)"

text \<open>
  \<open>main\<close>: the scraper object is built, which loads the store; the \<open>try\<close> runs; both
  \<open>except\<close> clauses log and drop what was raised; the \<open>finally\<close> quits the driver, if
  the browser was started at all.
\<close>

definition main :: "'w driver \<Rightarrow> int \<Rightarrow> int \<Rightarrow> string \<Rightarrow> 'w run \<Rightarrow> (exn + unit) \<times> 'w run" where
  "main d start_matchday end_matchday season st =
     (case on_browser (call d ANewChrome (new_chrome d))
             (st\<lparr>all_match_data := load_data (store_file st), scraped_ids := {}\<rparr>) of
        (Inl e, st1) \<Rightarrow> (Inr (), st1)
      | (Inr _, st1) \<Rightarrow>
          (case main_try d start_matchday end_matchday season st1 of
             (r, st2) \<Rightarrow> on_browser (quit d) st2))"

section \<open>What a run leaves in the trace\<close>

text \<open>
  The interaction with the page that a trace records: the waits for one element, with the
  element found (\<open>None\<close> when the wait ended without one), the clicks that went through
  (by \<open>elt.click()\<close> or by the click script), and the texts read. Pauses, scrolling and
  calls that raised are not part of it.
\<close>

datatype event = Looked string "elem option" | Clicked elem | Read elem

fun ui_of :: "action \<times> outcome \<Rightarrow> event list" where
  "ui_of (AWaitPresence how sel, Found e) = [Looked sel (Some e)]"
| "ui_of (AWaitPresence how sel, Raised x) = [Looked sel None]"
| "ui_of (AClick e, Returned) = [Clicked e]"
| "ui_of (AScript script (Some e), Returned) = (if script = JS_CLICK then [Clicked e] else [])"
| "ui_of (AText e, Returned) = [Read e]"
| "ui_of _ = []"

definition ui :: "(action \<times> outcome) list \<Rightarrow> event list" where
  "ui tr = concat (map ui_of tr)"

lemma ui_append [simp]: "ui (xs @ ys) = ui xs @ ui ys"
  by (simp add: ui_def)

lemma ui_Nil [simp]: "ui [] = []"
  by (simp add: ui_def)

lemma ui_Cons [simp]: "ui (ev # tr) = ui_of ev @ ui tr"
  by (simp add: ui_def)

lemma scripts_differ: "SCROLL_INTO_VIEW \<noteq> JS_CLICK"
  by (simp add: SCROLL_INTO_VIEW_def JS_CLICK_def)

text \<open>What one call to the driver, one wait and one pause add to the trace.\<close>

lemma call_trace:
  "call d a f s = (r, s') \<Longrightarrow>
   trace s' = trace s @ [(a, case r of Inl e \<Rightarrow> Raised e | Inr _ \<Rightarrow> Returned)]"
  by (auto simp: call_def split: prod.splits)

lemma wait_for_trace:
  "wait_for d how sel s = (r, s') \<Longrightarrow>
   trace s' = trace s @ [(AWaitPresence how sel, case r of Inl e \<Rightarrow> Raised e | Inr elt \<Rightarrow> Found elt)]"
  by (auto simp: wait_for_def split: prod.splits)

lemma py_sleep_trace:
  "py_sleep d ms s = (r, s') \<Longrightarrow>
   trace s' = trace s @ [(ASleep ms, case r of Inl e \<Rightarrow> Raised e | Inr _ \<Rightarrow> Returned)]"
  by (auto simp: py_sleep_def split: prod.splits sum.splits dest!: call_trace)

lemma py_sleep_ui:
  "py_sleep d ms s = (r, s') \<Longrightarrow> \<exists>ext. trace s' = trace s @ ext \<and> ui ext = []"
  by (cases r) (auto dest!: py_sleep_trace)

lemma safe_find_trace:
  "safe_find d how sel s = (r, s') \<Longrightarrow>
   trace s' = trace s @
     [(AWaitPresence how sel,
       case r of Inl e \<Rightarrow> Raised e | Inr None \<Rightarrow> Raised TimeoutException | Inr (Some e) \<Rightarrow> Found e)]"
  by (auto simp: safe_find_def catch_def bnd_def ret_def raise_def
      split: prod.splits sum.splits if_splits dest!: wait_for_trace)

lemma safe_find_ui:
  "safe_find d how sel s = (Inr found, s') \<Longrightarrow>
   \<exists>ext. trace s' = trace s @ ext \<and> ui ext = [Looked sel found]"
  by (cases found) (auto dest!: safe_find_trace)

lemma elt_text_trace:
  "elt_text d e s = (r, s') \<Longrightarrow>
   trace s' = trace s @ [(AText e, case r of Inl x \<Rightarrow> Raised x | Inr _ \<Rightarrow> Returned)]"
  unfolding elt_text_def by (rule call_trace)

lemma click_attempt_ui:
  "click_attempt d elt s = (r, s') \<Longrightarrow>
   \<exists>ext. trace s' = trace s @ ext \<and> ui ext = (if isl r then [] else [Clicked elt])"
  by (cases r)
    (auto simp: click_attempt_def bnd_def scripts_differ
      split: prod.splits sum.splits dest!: call_trace py_sleep_trace)

lemma js_click_ui:
  "call d (AScript JS_CLICK (Some elt)) f s = (r, s') \<Longrightarrow>
   \<exists>ext. trace s' = trace s @ ext \<and> ui ext = (if isl r then [] else [Clicked elt])"
  by (cases r) (auto dest!: call_trace)

text \<open>\<open>safe_click\<close> clicks its element once when it returns \<open>True\<close>, and not at all otherwise.\<close>

lemma safe_click_loop_ui:
  "safe_click_loop d elt n s = (r, s') \<Longrightarrow>
   \<exists>ext. trace s' = trace s @ ext \<and> ui ext = (if r = Inr True then [Clicked elt] else [])"
proof (induction n arbitrary: s r s')
  case 0
  then show ?case by (auto simp: ret_def)
next
  case (Suc n)
  obtain r1 s1 where a: "click_attempt d elt s = (r1, s1)"
    by (cases "click_attempt d elt s")
  from click_attempt_ui[OF a] obtain e1 where
    t1: "trace s1 = trace s @ e1" "ui e1 = (if isl r1 then [] else [Clicked elt])"
    by blast
  obtain r2 s2 where b:
    "call d (AScript JS_CLICK (Some elt)) (execute_script d JS_CLICK (Some elt)) s1 = (r2, s2)"
    by (cases "call d (AScript JS_CLICK (Some elt)) (execute_script d JS_CLICK (Some elt)) s1")
  from js_click_ui[OF b] obtain e2 where
    t2: "trace s2 = trace s1 @ e2" "ui e2 = (if isl r2 then [] else [Clicked elt])"
    by blast
  obtain r3 s3 where c: "py_sleep d 500 s1 = (r3, s3)"
    by (cases "py_sleep d 500 s1")
  from py_sleep_ui[OF c] obtain e3 where
    t3: "trace s3 = trace s1 @ e3" "ui e3 = []"
    by blast
  obtain r4 s4 where c': "py_sleep d 500 s2 = (r4, s4)"
    by (cases "py_sleep d 500 s2")
  from py_sleep_ui[OF c'] obtain e4 where
    t4: "trace s4 = trace s2 @ e4" "ui e4 = []"
    by blast
  have again: "safe_click_loop d elt n s3 = (r, s') \<Longrightarrow>
      \<exists>ext. trace s' = trace s3 @ ext \<and> ui ext = (if r = Inr True then [Clicked elt] else [])"
    by (rule Suc.IH)
  have again': "safe_click_loop d elt n s4 = (r, s') \<Longrightarrow>
      \<exists>ext. trace s' = trace s4 @ ext \<and> ui ext = (if r = Inr True then [Clicked elt] else [])"
    by (rule Suc.IH)
  from Suc.prems show ?case
    using a b c c' t1 t2 t3 t4 again again'
    by (auto simp: catch_def bnd_def ret_def raise_def split: sum.splits if_splits)
qed

lemma safe_click_ui:
  "safe_click d elt s = (r, s') \<Longrightarrow>
   \<exists>ext. trace s' = trace s @ ext \<and> ui ext = (if r = Inr True then [Clicked elt] else [])"
  unfolding safe_click_def by (rule safe_click_loop_ui)


text \<open>
  The step that the navigation is made of: wait for an element, click it, pause. It stops
  with \<open>False\<close> when the element is not found or cannot be clicked; otherwise it has
  found the element, clicked it and paused, and goes on.
\<close>

lemma find_click_pause:
  assumes "bnd (safe_find d how sel)
             (\<lambda>x. case x of
                None \<Rightarrow> ret False
              | Some e \<Rightarrow> bnd (safe_click d e)
                  (\<lambda>ok. if \<not> ok then ret False else bnd (py_sleep d ms) k)) s = (r, s')"
  shows "(\<exists>x. r = Inl x) \<or>
         (r = Inr False \<and>
          (\<exists>ext. trace s' = trace s @ ext \<and>
             (ui ext = [Looked sel None] \<or> (\<exists>e. ui ext = [Looked sel (Some e)])))) \<or>
         (\<exists>e ext mid. trace mid = trace s @ ext @ [(ASleep ms, Returned)] \<and>
             ui ext = [Looked sel (Some e), Clicked e] \<and> k () mid = (r, s'))"
proof -
  obtain r1 t1 where f: "safe_find d how sel s = (r1, t1)"
    by (cases "safe_find d how sel s")
  show ?thesis
  proof (cases r1)
    case (Inl x)
    with assms f show ?thesis by (auto simp: bnd_def)
  next
    case (Inr found)
    from safe_find_ui[OF f[unfolded Inr]] obtain e1 where
      t1: "trace t1 = trace s @ e1" "ui e1 = [Looked sel found]"
      by blast
    show ?thesis
    proof (cases found)
      case None
      with assms f Inr t1 show ?thesis by (auto simp: bnd_def ret_def)
    next
      case (Some e)
      obtain r2 t2 where c: "safe_click d e t1 = (r2, t2)"
        by (cases "safe_click d e t1")
      from safe_click_ui[OF c] obtain e2 where
        t2: "trace t2 = trace t1 @ e2" "ui e2 = (if r2 = Inr True then [Clicked e] else [])"
        by blast
      show ?thesis
      proof (cases r2)
        case (Inl x)
        with assms f Inr Some c show ?thesis by (auto simp: bnd_def)
      next
        case ok: (Inr ok)
        show ?thesis
        proof (cases ok)
          case False
          with assms f Inr Some c ok have "r = Inr False" "s' = t2"
            by (simp_all add: bnd_def ret_def)
          moreover have "trace t2 = trace s @ (e1 @ e2)" "ui (e1 @ e2) = [Looked sel (Some e)]"
            using t1 t2 ok False Some by simp_all
          ultimately show ?thesis by blast
        next
          case True
          obtain r3 t3 where p: "py_sleep d ms t2 = (r3, t3)"
            by (cases "py_sleep d ms t2")
          show ?thesis
          proof (cases r3)
            case (Inl x)
            with assms f Inr Some c ok True p show ?thesis by (auto simp: bnd_def)
          next
            case slept: (Inr u)
            with assms f Inr Some c ok True p have run: "k () t3 = (r, s')"
              by (simp add: bnd_def)
            have "trace t3 = trace s @ (e1 @ e2) @ [(ASleep ms, Returned)]"
              using py_sleep_trace[OF p] slept t1 t2 by simp
            moreover have "ui (e1 @ e2) = [Looked sel (Some e), Clicked e]"
              using t1 t2 ok True Some by simp
            ultimately show ?thesis using run by blast
          qed
        qed
      qed
    qed
  qed
qed

section \<open>Concrete browsers\<close>

text \<open>
  A browser on an empty page: no element is ever found, every other call succeeds at
  once. The sites below change a few of its answers.
\<close>

definition empty_page :: "'w driver" where
  "empty_page =
     \<lparr>wait_presence = (\<lambda>how sel w. (Inl TimeoutException, w)),
      wait_presence_all = (\<lambda>how sel w. (Inl TimeoutException, w)),
      find_elements = (\<lambda>how sel w. (Inr [], w)),
      elem_find_elements = (\<lambda>e how sel w. (Inr [], w)),
      elem_text = (\<lambda>e w. (Inr [], w)),
      elem_get_attribute = (\<lambda>e name w. (Inr None, w)),
      elem_click = (\<lambda>e w. (Inr (), w)),
      execute_script = (\<lambda>script arg w. (Inr PNone, w)),
      time_sleep = (\<lambda>ms w. (Inr (), w)),
      driver_get = (\<lambda>page w. (Inr (), w)),
      window_handles = (\<lambda>w. (Inr [''tab0'', ''tab1''], w)),
      switch_to_window = (\<lambda>h w. (Inr (), w)),
      driver_close = (\<lambda>w. (Inr (), w)),
      session_alive = (\<lambda>w. (Inr True, w)),
      driver_quit = (\<lambda>w. (Inr (), w)),
      new_chrome = (\<lambda>w. (Inr (), w)),
      implicitly_wait = (\<lambda>w. (Inr (), w)),
      current_window_handle = (\<lambda>w. (Inr ''tab0'', w)),
      dismiss_cookies = (\<lambda>w. (Inr False, w)),
      random_uniform = (\<lambda>w. (Inr 0, w)),
      extract_field = (\<lambda>key w. (Inr (PStr ''N/A''), w)),
      elapsed = (\<lambda>w. 0)\<rparr>"

definition start :: "'w \<Rightarrow> 'w bstate" where
  "start w = \<lparr>world = w, clock = 0, trace = []\<rparr>"

lemma trace_start [simp]: "trace (start w) = []"
  by (simp add: start_def)


lemma loop_counts: "(3::nat) = Suc (Suc (Suc 0))" "(5::nat) = Suc (Suc (Suc (Suc (Suc 0))))"
  by simp_all

lemmas prog_eval =
  bnd_def ret_def raise_def catch_def call_def py_sleep_def wait_for_def safe_find_def safe_find_all_def
  safe_click_def click_attempt_def elt_text_def run_script_def start_def loop_counts



subsection \<open>Season selection\<close>








subsection \<open>Round navigation\<close>

lemma extract_round_trace:
  "extract_round d s = (Inr (Some n), s') \<Longrightarrow>
   \<exists>e. trace s' = trace s @
     [(AWaitPresence CSS_SELECTOR ROUND_TEXT_SELECTOR, Found e), (AText e, Returned)]"
  by (auto simp: extract_round_def bnd_def ret_def
      split: sum.splits option.splits prod.splits dest!: safe_find_trace elt_text_trace)

text \<open>The interaction of stepping: each arrow found is the element clicked next.\<close>

fun steps :: "string \<Rightarrow> elem list \<Rightarrow> event list" where
  "steps sel [] = []"
| "steps sel (e # es) = Looked sel (Some e) # Clicked e # steps sel es"

lemma arrow_steps_ui:
  "arrow_steps d sel n s = (r, s') \<Longrightarrow>
   (\<exists>x. r = Inl x) \<or>
   (\<exists>es ext. trace s' = trace s @ ext \<and>
      (r = Inr True \<and> length es = n \<and> ui ext = steps sel es \<or>
       r = Inr False \<and> length es < n \<and>
         (ui ext = steps sel es @ [Looked sel None] \<or>
          (\<exists>e. ui ext = steps sel es @ [Looked sel (Some e)]))))"
proof (induction n arbitrary: s)
  case 0
  then have "r = Inr True" "trace s' = trace s @ []" "ui [] = steps sel []"
    by (simp_all add: ret_def)
  then show ?case by (metis list.size(3))
next
  case (Suc n)
  from Suc.prems have body:
    "bnd (safe_find d CSS_SELECTOR sel)
       (\<lambda>arrow. case arrow of
          None \<Rightarrow> ret False
        | Some a \<Rightarrow> bnd (safe_click d a)
            (\<lambda>clicked. if \<not> clicked then ret False
             else bnd (py_sleep d SCROLL_PAUSE_TIME) (\<lambda>_. arrow_steps d sel n))) s = (r, s')"
    by simp
  from find_click_pause[OF body] consider
      (raised) x where "r = Inl x"
    | (stopped) ext where "r = Inr False" "trace s' = trace s @ ext"
        "ui ext = [Looked sel None] \<or> (\<exists>e. ui ext = [Looked sel (Some e)])"
    | (stepped) e ext mid where
        "trace mid = trace s @ ext @ [(ASleep SCROLL_PAUSE_TIME, Returned)]"
        "ui ext = [Looked sel (Some e), Clicked e]"
        "arrow_steps d sel n mid = (r, s')"
    by blast
  then show ?case
  proof cases
    case raised
    then show ?thesis by blast
  next
    case stopped
    have "length ([]::elem list) < Suc n" by simp
    moreover from stopped(3) have
      "ui ext = steps sel [] @ [Looked sel None] \<or>
       (\<exists>e. ui ext = steps sel [] @ [Looked sel (Some e)])"
      by simp
    ultimately show ?thesis using stopped(1,2) by blast
  next
    case stepped
    from Suc.IH[OF stepped(3)] consider
        (raised2) x where "r = Inl x"
      | (rest) es ext' where "trace s' = trace mid @ ext'"
          "r = Inr True \<and> length es = n \<and> ui ext' = steps sel es \<or>
           r = Inr False \<and> length es < n \<and>
             (ui ext' = steps sel es @ [Looked sel None] \<or>
              (\<exists>e. ui ext' = steps sel es @ [Looked sel (Some e)]))"
      by blast
    then show ?thesis
    proof cases
      case raised2
      then show ?thesis by blast
    next
      case rest
      let ?ext = "ext @ [(ASleep SCROLL_PAUSE_TIME, Returned)] @ ext'"
      have t: "trace s' = trace s @ ?ext"
        using rest(1) stepped(1) by simp
      have u: "ui ?ext = Looked sel (Some e) # Clicked e # ui ext'"
        using stepped(2) by simp
      from rest(2) have
        "r = Inr True \<and> length (e # es) = Suc n \<and> ui ?ext = steps sel (e # es) \<or>
         r = Inr False \<and> length (e # es) < Suc n \<and>
           (ui ?ext = steps sel (e # es) @ [Looked sel None] \<or>
            (\<exists>e'. ui ?ext = steps sel (e # es) @ [Looked sel (Some e')]))"
        unfolding u by auto
      with t show ?thesis by blast
    qed
  qed
qed

text \<open>
  A site that shows the round it is on and whose dropdown offers round 7: the label is
  element 1, the dropdown button element 2, the option element 3, and a click on the
  option moves the site to round 7.
\<close>

definition round_site :: "int driver" where
  "round_site =
     empty_page\<lparr>wait_presence := (\<lambda>how sel w.
                   (if sel = ROUND_TEXT_SELECTOR then Inr 1
                    else if sel = ROUND_DROPDOWN_BUTTON then Inr 2
                    else if sel = ROUND_OPTION_XPATH 7 then Inr 3
                    else Inl TimeoutException, w)),
                elem_text := (\<lambda>e w. (Inr (''Round '' @ show_int w), w)),
                elem_click := (\<lambda>e w. (Inr (), if e = 3 then 7 else w))\<rparr>"

text \<open>
  A site without a round dropdown, whose arrows (elements 4 and 5) can be clicked and
  whose round label (element 1) reads the same text whatever is clicked.
\<close>

definition arrow_site :: "string \<Rightarrow> unit driver" where
  "arrow_site label =
     empty_page\<lparr>wait_presence := (\<lambda>how sel w.
                   (if sel = ROUND_TEXT_SELECTOR then Inr 1
                    else if sel = PREV_ROUND_ARROW then Inr 4
                    else if sel = NEXT_ROUND_ARROW then Inr 5
                    else Inl TimeoutException, w)),
                elem_text := (\<lambda>e w. (Inr label, w))\<rparr>"

lemma round_site_fields:
  "wait_presence round_site how sel w = (if sel = ROUND_TEXT_SELECTOR then Inr 1 else if sel = ROUND_DROPDOWN_BUTTON then Inr 2 else if sel = ROUND_OPTION_XPATH 7 then Inr 3 else Inl TimeoutException, w)"
  "wait_presence_all round_site how sel w = (Inl TimeoutException, w)"
  "find_elements round_site how sel w = (Inr [], w)"
  "elem_find_elements round_site e how sel w = (Inr [], w)"
  "elem_text round_site e w = (Inr (''Round '' @ show_int w), w)"
  "elem_get_attribute round_site e name w = (Inr None, w)"
  "elem_click round_site e w = (Inr (), if e = 3 then 7 else w)"
  "execute_script round_site script arg w = (Inr PNone, w)"
  "time_sleep round_site ms w = (Inr (), w)"
  "driver_get round_site page w = (Inr (), w)"
  "window_handles round_site w = (Inr [''tab0'', ''tab1''], w)"
  "switch_to_window round_site h w = (Inr (), w)"
  "driver_close round_site w = (Inr (), w)"
  "session_alive round_site w = (Inr True, w)"
  "driver_quit round_site w = (Inr (), w)"
  "new_chrome round_site w = (Inr (), w)"
  "implicitly_wait round_site w = (Inr (), w)"
  "current_window_handle round_site w = (Inr ''tab0'', w)"
  "dismiss_cookies round_site w = (Inr False, w)"
  "random_uniform round_site w = (Inr 0, w)"
  "extract_field round_site key w = (Inr (PStr ''N/A''), w)"
  "elapsed round_site w = 0"
  by (simp_all add: round_site_def empty_page_def)

lemma arrow_site_fields:
  "wait_presence (arrow_site label) how sel w = (if sel = ROUND_TEXT_SELECTOR then Inr 1 else if sel = PREV_ROUND_ARROW then Inr 4 else if sel = NEXT_ROUND_ARROW then Inr 5 else Inl TimeoutException, w)"
  "wait_presence_all (arrow_site label) how sel w = (Inl TimeoutException, w)"
  "find_elements (arrow_site label) how sel w = (Inr [], w)"
  "elem_find_elements (arrow_site label) e how sel w = (Inr [], w)"
  "elem_text (arrow_site label) e w = (Inr label, w)"
  "elem_get_attribute (arrow_site label) e name w = (Inr None, w)"
  "elem_click (arrow_site label) e w = (Inr (), w)"
  "execute_script (arrow_site label) script arg w = (Inr PNone, w)"
  "time_sleep (arrow_site label) ms w = (Inr (), w)"
  "driver_get (arrow_site label) page w = (Inr (), w)"
  "window_handles (arrow_site label) w = (Inr [''tab0'', ''tab1''], w)"
  "switch_to_window (arrow_site label) h w = (Inr (), w)"
  "driver_close (arrow_site label) w = (Inr (), w)"
  "session_alive (arrow_site label) w = (Inr True, w)"
  "driver_quit (arrow_site label) w = (Inr (), w)"
  "new_chrome (arrow_site label) w = (Inr (), w)"
  "implicitly_wait (arrow_site label) w = (Inr (), w)"
  "current_window_handle (arrow_site label) w = (Inr ''tab0'', w)"
  "dismiss_cookies (arrow_site label) w = (Inr False, w)"
  "random_uniform (arrow_site label) w = (Inr 0, w)"
  "extract_field (arrow_site label) key w = (Inr (PStr ''N/A''), w)"
  "elapsed (arrow_site label) w = 0"
  by (simp_all add: arrow_site_def empty_page_def)

lemma show_int_values:
  "show_int 1 = ''1''" "show_int 2 = ''2''" "show_int 3 = ''3''" "show_int 5 = ''5''"
  "show_int 7 = ''7''"
  by (simp_all add: show_int_def show_nat.simps)

lemmas selector_eval =
  ROUND_TEXT_SELECTOR_def ROUND_DROPDOWN_BUTTON_def ROUND_OPTION_XPATH_def
  NEXT_ROUND_ARROW_def PREV_ROUND_ARROW_def dq_def sq_def show_int_values

lemmas round_eval =
  navigate_to_round_def extract_round_def round_by_dropdown_def round_pattern_def
  strip_def text_eval

text \<open>
  C5. Round stepping is used when the round read from the label is not the target and the
  dropdown did not select it. The round shown counts as 0 when the label could not be
  read. Then, unless an exception escapes, \<open>navigate_to_round\<close> steps with one arrow, the
  next-round arrow when the target lies after the round shown and the previous-round
  arrow otherwise, and each arrow it finds is the element it clicks next. When it returns
  \<open>True\<close> it has found and clicked that arrow exactly \<open>|target - shown|\<close> times, and the
  wait for the page to reload is its last action. When it returns \<open>False\<close> it has made
  fewer steps than that, and stopped at an arrow that was not found or could not be
  clicked.
\<close>

theorem round_stepping:
  assumes "extract_round d s = (Inr current, s1)"
    and "current \<noteq> Some target"
    and "round_by_dropdown d target s1 = (Inr False, s2)"
    and "navigate_to_round d target s = (r, s')"
  defines "shown \<equiv> case current of None \<Rightarrow> 0 | Some c \<Rightarrow> c"
  defines "arrow \<equiv> if shown < target then NEXT_ROUND_ARROW else PREV_ROUND_ARROW"
  shows "(\<exists>x. r = Inl x) \<or>
         (\<exists>es ext. trace s' = trace s2 @ ext \<and>
            (r = Inr True \<and> int (length es) = \<bar>target - shown\<bar> \<and>
               ui ext = steps arrow es \<and> last ext = (ASleep PAGE_RELOAD_WAIT, Returned) \<or>
             r = Inr False \<and> int (length es) < \<bar>target - shown\<bar> \<and>
               (ui ext = steps arrow es @ [Looked arrow None] \<or>
                (\<exists>e. ui ext = steps arrow es @ [Looked arrow (Some e)]))))"
proof -
  define n where "n = nat \<bar>target - shown\<bar>"
  obtain r3 s3 where a: "arrow_steps d arrow n s2 = (r3, s3)"
    by (cases "arrow_steps d arrow n s2")
  have nav: "navigate_to_round d target s =
      (case r3 of
         Inl e \<Rightarrow> (Inl e, s3)
       | Inr stepped \<Rightarrow> if \<not> stepped then (Inr False, s3)
                       else bnd (py_sleep d PAGE_RELOAD_WAIT) (\<lambda>_. ret True) s3)"
    using assms(1-3) a
    by (simp add: navigate_to_round_def bnd_def ret_def Let_def shown_def n_def arrow_def
        split: sum.splits)
  from arrow_steps_ui[OF a] consider
      (raised) x where "r3 = Inl x"
    | (finished) es ext where "trace s3 = trace s2 @ ext" "r3 = Inr True" "length es = n"
        "ui ext = steps arrow es"
    | (stopped) es ext where "trace s3 = trace s2 @ ext" "r3 = Inr False" "length es < n"
        "ui ext = steps arrow es @ [Looked arrow None] \<or>
         (\<exists>e. ui ext = steps arrow es @ [Looked arrow (Some e)])"
    by blast
  then show ?thesis
  proof cases
    case raised
    with nav assms(4) show ?thesis by simp
  next
    case stopped
    with nav assms(4) have "r = Inr False" "s' = s3"
      by simp_all
    moreover from stopped(3) have "int (length es) < \<bar>target - shown\<bar>"
      by (simp add: n_def)
    ultimately show ?thesis using stopped(1,4) by blast
  next
    case finished
    obtain r4 s4 where b: "py_sleep d PAGE_RELOAD_WAIT s3 = (r4, s4)"
      by (cases "py_sleep d PAGE_RELOAD_WAIT s3")
    show ?thesis
    proof (cases r4)
      case (Inl x)
      with nav assms(4) finished(2) b show ?thesis by (simp add: bnd_def)
    next
      case (Inr u)
      with nav assms(4) finished(2) b have "r = Inr True" "s' = s4"
        by (simp_all add: bnd_def ret_def)
      moreover have "trace s4 = trace s2 @ (ext @ [(ASleep PAGE_RELOAD_WAIT, Returned)])"
        using py_sleep_trace[OF b] Inr finished(1) by simp
      moreover have "ui (ext @ [(ASleep PAGE_RELOAD_WAIT, Returned)]) = steps arrow es"
        using finished(4) by simp
      moreover have "last (ext @ [(ASleep PAGE_RELOAD_WAIT, Returned)]) =
          (ASleep PAGE_RELOAD_WAIT, Returned)"
        by simp
      moreover from finished(3) have "int (length es) = \<bar>target - shown\<bar>"
        by (simp add: n_def)
      ultimately show ?thesis by blast
    qed
  qed
qed

text \<open>The site with arrows, piece by piece, from any state.\<close>

lemma arrow_site_round:
  "\<exists>s'. extract_round (arrow_site ''Round 5'') s = (Inr (Some 5), s') \<and>
        ui (trace s') = ui (trace s) @ [Looked ROUND_TEXT_SELECTOR (Some 1), Read 1]"
  by (simp add: extract_round_def round_pattern_def strip_def text_eval
      arrow_site_fields prog_eval selector_eval)

lemma arrow_site_no_round:
  "\<exists>s'. extract_round (arrow_site ''Matchday'') s = (Inr None, s') \<and>
        ui (trace s') = ui (trace s) @ [Looked ROUND_TEXT_SELECTOR (Some 1), Read 1]"
  by (simp add: extract_round_def round_pattern_def strip_def text_eval
      arrow_site_fields prog_eval selector_eval)

lemma arrow_site_dropdown:
  "\<exists>s'. round_by_dropdown (arrow_site label) target s = (Inr False, s') \<and>
        ui (trace s') = ui (trace s) @ [Looked ROUND_DROPDOWN_BUTTON None]"
  by (simp add: round_by_dropdown_def arrow_site_fields prog_eval selector_eval)

lemma arrow_site_click:
  "\<exists>s'. safe_click (arrow_site label) e s = (Inr True, s') \<and>
        ui (trace s') = ui (trace s) @ [Clicked e]"
  by (simp add: arrow_site_fields prog_eval scripts_differ)

lemma arrow_site_pause:
  "\<exists>s'. py_sleep (arrow_site label) ms s = (Inr (), s') \<and> ui (trace s') = ui (trace s)"
  by (simp add: arrow_site_fields prog_eval)

lemma arrow_site_prev:
  "\<exists>s'. safe_find (arrow_site label) CSS_SELECTOR PREV_ROUND_ARROW s = (Inr (Some 4), s') \<and>
        ui (trace s') = ui (trace s) @ [Looked PREV_ROUND_ARROW (Some 4)]"
  by (simp add: arrow_site_fields prog_eval selector_eval)

lemma arrow_site_next:
  "\<exists>s'. safe_find (arrow_site label) CSS_SELECTOR NEXT_ROUND_ARROW s = (Inr (Some 5), s') \<and>
        ui (trace s') = ui (trace s) @ [Looked NEXT_ROUND_ARROW (Some 5)]"
  by (simp add: arrow_site_fields prog_eval selector_eval)

lemma arrow_site_back:
  "\<exists>s'. arrow_steps (arrow_site label) PREV_ROUND_ARROW n s = (Inr True, s') \<and>
        ui (trace s') = ui (trace s) @ steps PREV_ROUND_ARROW (replicate n 4)"
proof (induction n arbitrary: s)
  case 0
  show ?case by (simp add: ret_def)
next
  case (Suc n)
  obtain s1 where a:
    "safe_find (arrow_site label) CSS_SELECTOR PREV_ROUND_ARROW s = (Inr (Some 4), s1)"
    "ui (trace s1) = ui (trace s) @ [Looked PREV_ROUND_ARROW (Some 4)]"
    using arrow_site_prev by blast
  obtain s2 where b: "safe_click (arrow_site label) 4 s1 = (Inr True, s2)"
    "ui (trace s2) = ui (trace s1) @ [Clicked 4]"
    using arrow_site_click by blast
  obtain s3 where c: "py_sleep (arrow_site label) SCROLL_PAUSE_TIME s2 = (Inr (), s3)"
    "ui (trace s3) = ui (trace s2)"
    using arrow_site_pause by blast
  obtain s4 where d: "arrow_steps (arrow_site label) PREV_ROUND_ARROW n s3 = (Inr True, s4)"
    "ui (trace s4) = ui (trace s3) @ steps PREV_ROUND_ARROW (replicate n 4)"
    using Suc.IH by blast
  have "arrow_steps (arrow_site label) PREV_ROUND_ARROW (Suc n) s = (Inr True, s4)"
    by (simp add: bnd_def a(1) b(1) c(1) d(1))
  moreover have "ui (trace s4) = ui (trace s) @ steps PREV_ROUND_ARROW (replicate (Suc n) 4)"
    by (simp add: a(2) b(2) c(2) d(2))
  ultimately show ?case by blast
qed

lemma arrow_site_forth:
  "\<exists>s'. arrow_steps (arrow_site label) NEXT_ROUND_ARROW n s = (Inr True, s') \<and>
        ui (trace s') = ui (trace s) @ steps NEXT_ROUND_ARROW (replicate n 5)"
proof (induction n arbitrary: s)
  case 0
  show ?case by (simp add: ret_def)
next
  case (Suc n)
  obtain s1 where a:
    "safe_find (arrow_site label) CSS_SELECTOR NEXT_ROUND_ARROW s = (Inr (Some 5), s1)"
    "ui (trace s1) = ui (trace s) @ [Looked NEXT_ROUND_ARROW (Some 5)]"
    using arrow_site_next by blast
  obtain s2 where b: "safe_click (arrow_site label) 5 s1 = (Inr True, s2)"
    "ui (trace s2) = ui (trace s1) @ [Clicked 5]"
    using arrow_site_click by blast
  obtain s3 where c: "py_sleep (arrow_site label) SCROLL_PAUSE_TIME s2 = (Inr (), s3)"
    "ui (trace s3) = ui (trace s2)"
    using arrow_site_pause by blast
  obtain s4 where d: "arrow_steps (arrow_site label) NEXT_ROUND_ARROW n s3 = (Inr True, s4)"
    "ui (trace s4) = ui (trace s3) @ steps NEXT_ROUND_ARROW (replicate n 5)"
    using Suc.IH by blast
  have "arrow_steps (arrow_site label) NEXT_ROUND_ARROW (Suc n) s = (Inr True, s4)"
    by (simp add: bnd_def a(1) b(1) c(1) d(1))
  moreover have "ui (trace s4) = ui (trace s) @ steps NEXT_ROUND_ARROW (replicate (Suc n) 5)"
    by (simp add: a(2) b(2) c(2) d(2))
  ultimately show ?case by blast
qed

text \<open>
  From round 5 to round 2 on that site: after the label and the missing dropdown, three
  steps back. With a label that does not parse, to round 2: two steps forward.
\<close>

lemma arrow_site_5_to_2:
  "\<exists>s1 s2 s'.
     extract_round (arrow_site ''Round 5'') s = (Inr (Some 5), s1) \<and>
     round_by_dropdown (arrow_site ''Round 5'') 2 s1 = (Inr False, s2) \<and>
     navigate_to_round (arrow_site ''Round 5'') 2 s = (Inr True, s') \<and>
     ui (trace s') = ui (trace s) @
       [Looked ROUND_TEXT_SELECTOR (Some 1), Read 1, Looked ROUND_DROPDOWN_BUTTON None,
        Looked PREV_ROUND_ARROW (Some 4), Clicked 4,
        Looked PREV_ROUND_ARROW (Some 4), Clicked 4,
        Looked PREV_ROUND_ARROW (Some 4), Clicked 4]"
proof -
  obtain s1 where a: "extract_round (arrow_site ''Round 5'') s = (Inr (Some 5), s1)"
    "ui (trace s1) = ui (trace s) @ [Looked ROUND_TEXT_SELECTOR (Some 1), Read 1]"
    using arrow_site_round by blast
  obtain s2 where b: "round_by_dropdown (arrow_site ''Round 5'') 2 s1 = (Inr False, s2)"
    "ui (trace s2) = ui (trace s1) @ [Looked ROUND_DROPDOWN_BUTTON None]"
    using arrow_site_dropdown by blast
  obtain s3 where c:
    "arrow_steps (arrow_site ''Round 5'') PREV_ROUND_ARROW 3 s2 = (Inr True, s3)"
    "ui (trace s3) = ui (trace s2) @ steps PREV_ROUND_ARROW (replicate 3 4)"
    using arrow_site_back by blast
  obtain s4 where d: "py_sleep (arrow_site ''Round 5'') PAGE_RELOAD_WAIT s3 = (Inr (), s4)"
    "ui (trace s4) = ui (trace s3)"
    using arrow_site_pause by blast
  have "navigate_to_round (arrow_site ''Round 5'') 2 s = (Inr True, s4)"
    unfolding navigate_to_round_def
    by (simp add: bnd_def ret_def a(1) b(1) c(1) d(1))
  moreover have "ui (trace s4) = ui (trace s) @
       [Looked ROUND_TEXT_SELECTOR (Some 1), Read 1, Looked ROUND_DROPDOWN_BUTTON None,
        Looked PREV_ROUND_ARROW (Some 4), Clicked 4,
        Looked PREV_ROUND_ARROW (Some 4), Clicked 4,
        Looked PREV_ROUND_ARROW (Some 4), Clicked 4]"
    by (simp add: a(2) b(2) c(2) d(2) numeral_2_eq_2 numeral_3_eq_3)
  ultimately show ?thesis using a(1) b(1) by blast
qed

lemma arrow_site_unread_to_2:
  "\<exists>s1 s2 s'.
     extract_round (arrow_site ''Matchday'') s = (Inr None, s1) \<and>
     round_by_dropdown (arrow_site ''Matchday'') 2 s1 = (Inr False, s2) \<and>
     navigate_to_round (arrow_site ''Matchday'') 2 s = (Inr True, s') \<and>
     ui (trace s') = ui (trace s) @
       [Looked ROUND_TEXT_SELECTOR (Some 1), Read 1, Looked ROUND_DROPDOWN_BUTTON None,
        Looked NEXT_ROUND_ARROW (Some 5), Clicked 5,
        Looked NEXT_ROUND_ARROW (Some 5), Clicked 5]"
proof -
  obtain s1 where a: "extract_round (arrow_site ''Matchday'') s = (Inr None, s1)"
    "ui (trace s1) = ui (trace s) @ [Looked ROUND_TEXT_SELECTOR (Some 1), Read 1]"
    using arrow_site_no_round by blast
  obtain s2 where b: "round_by_dropdown (arrow_site ''Matchday'') 2 s1 = (Inr False, s2)"
    "ui (trace s2) = ui (trace s1) @ [Looked ROUND_DROPDOWN_BUTTON None]"
    using arrow_site_dropdown by blast
  obtain s3 where c:
    "arrow_steps (arrow_site ''Matchday'') NEXT_ROUND_ARROW 2 s2 = (Inr True, s3)"
    "ui (trace s3) = ui (trace s2) @ steps NEXT_ROUND_ARROW (replicate 2 5)"
    using arrow_site_forth by blast
  obtain s4 where d: "py_sleep (arrow_site ''Matchday'') PAGE_RELOAD_WAIT s3 = (Inr (), s4)"
    "ui (trace s4) = ui (trace s3)"
    using arrow_site_pause by blast
  have "navigate_to_round (arrow_site ''Matchday'') 2 s = (Inr True, s4)"
    unfolding navigate_to_round_def
    by (simp add: bnd_def ret_def a(1) b(1) c(1) d(1))
  moreover have "ui (trace s4) = ui (trace s) @
       [Looked ROUND_TEXT_SELECTOR (Some 1), Read 1, Looked ROUND_DROPDOWN_BUTTON None,
        Looked NEXT_ROUND_ARROW (Some 5), Clicked 5,
        Looked NEXT_ROUND_ARROW (Some 5), Clicked 5]"
    by (simp add: a(2) b(2) c(2) d(2) numeral_2_eq_2 numeral_3_eq_3)
  ultimately show ?thesis using a(1) b(1) by blast
qed

theorem round_stepping_witness:
  "fst (navigate_to_round (arrow_site ''Round 5'') 2 (start ())) = Inr True \<and>
   ui (trace (snd (navigate_to_round (arrow_site ''Round 5'') 2 (start ())))) =
     [Looked ROUND_TEXT_SELECTOR (Some 1), Read 1, Looked ROUND_DROPDOWN_BUTTON None] @
     steps PREV_ROUND_ARROW [4, 4, 4] \<and>
   fst (navigate_to_round (arrow_site ''Matchday'') 2 (start ())) = Inr True \<and>
   ui (trace (snd (navigate_to_round (arrow_site ''Matchday'') 2 (start ())))) =
     [Looked ROUND_TEXT_SELECTOR (Some 1), Read 1, Looked ROUND_DROPDOWN_BUTTON None] @
     steps NEXT_ROUND_ARROW [5, 5]"
proof -
  obtain s1 s2 s' where a:
    "extract_round (arrow_site ''Round 5'') (start ()) = (Inr (Some 5), s1)"
    "round_by_dropdown (arrow_site ''Round 5'') 2 s1 = (Inr False, s2)"
    "navigate_to_round (arrow_site ''Round 5'') 2 (start ()) = (Inr True, s')"
    "ui (trace s') = ui (trace (start ())) @
       [Looked ROUND_TEXT_SELECTOR (Some 1), Read 1, Looked ROUND_DROPDOWN_BUTTON None,
        Looked PREV_ROUND_ARROW (Some 4), Clicked 4,
        Looked PREV_ROUND_ARROW (Some 4), Clicked 4,
        Looked PREV_ROUND_ARROW (Some 4), Clicked 4]"
    using arrow_site_5_to_2 by blast
  obtain t1 t2 t' where b:
    "extract_round (arrow_site ''Matchday'') (start ()) = (Inr None, t1)"
    "round_by_dropdown (arrow_site ''Matchday'') 2 t1 = (Inr False, t2)"
    "navigate_to_round (arrow_site ''Matchday'') 2 (start ()) = (Inr True, t')"
    "ui (trace t') = ui (trace (start ())) @
       [Looked ROUND_TEXT_SELECTOR (Some 1), Read 1, Looked ROUND_DROPDOWN_BUTTON None,
        Looked NEXT_ROUND_ARROW (Some 5), Clicked 5,
        Looked NEXT_ROUND_ARROW (Some 5), Clicked 5]"
    using arrow_site_unread_to_2 by blast
  have "Some (5::int) \<noteq> Some 2" "None \<noteq> Some (2::int)"
    by simp_all
  from round_stepping[OF a(1) this(1) a(2) a(3)] round_stepping[OF b(1) this(2) b(2) b(3)]
  show ?thesis
    by (simp add: a(3,4) b(3,4))
qed

subsection \<open>A second call\<close>

text \<open>Whatever they return, the dropdown attempt and the stepping only add to the trace.\<close>

lemma round_by_dropdown_starts:
  "round_by_dropdown d target s = (r, s') \<Longrightarrow>
   \<exists>out rest. trace s' = trace s @ (AWaitPresence CSS_SELECTOR ROUND_DROPDOWN_BUTTON, out) # rest"
  by (auto simp: round_by_dropdown_def bnd_def ret_def
      split: prod.splits sum.splits option.splits if_splits
      dest!: safe_find_trace safe_click_ui py_sleep_trace)

lemma arrow_steps_grows:
  "arrow_steps d sel n s = (r, s') \<Longrightarrow> \<exists>ext. trace s' = trace s @ ext"
proof (induction n arbitrary: s)
  case 0
  then show ?case by (simp add: ret_def)
next
  case (Suc n)
  have again: "\<And>t. arrow_steps d sel n t = (r, s') \<Longrightarrow> \<exists>ext. trace s' = trace t @ ext"
    by (rule Suc.IH)
  from Suc.prems show ?case
    by (auto simp: bnd_def ret_def split: prod.splits sum.splits option.splits if_splits
        dest!: safe_find_trace safe_click_ui py_sleep_trace again)
qed

lemma round_site_first_call:
  "fst (navigate_to_round round_site 7 (start 5)) = Inr True \<and>
   world (snd (navigate_to_round round_site 7 (start 5))) = 7 \<and>
   ui (trace (snd (navigate_to_round round_site 7 (start 5)))) =
     [Looked ROUND_TEXT_SELECTOR (Some 1), Read 1,
      Looked ROUND_DROPDOWN_BUTTON (Some 2), Clicked 2,
      Looked (ROUND_OPTION_XPATH 7) (Some 3), Clicked 3]"
  by (simp add: round_eval round_site_fields prog_eval selector_eval scripts_differ)

lemma round_site_shows:
  "world s = 7 \<Longrightarrow>
   \<exists>s'. extract_round round_site s = (Inr (Some 7), s') \<and>
        ui (trace s') = ui (trace s) @ [Looked ROUND_TEXT_SELECTOR (Some 1), Read 1]"
  by (simp add: round_eval round_site_fields prog_eval selector_eval)

text \<open>
  On the site whose label stays at round 5, \<open>navigate_to_round(2)\<close> returns success after
  three steps back; the label still reads round 5, and a second call in succession goes
  through the dropdown and the three steps again.
\<close>

theorem navigate_to_round_repeat_counterexample:
  "fst (navigate_to_round (arrow_site ''Round 5'') 2 (start ())) = Inr True \<and>
   fst (extract_round (arrow_site ''Round 5'')
          (snd (navigate_to_round (arrow_site ''Round 5'') 2 (start ())))) = Inr (Some 5) \<and>
   fst (navigate_to_round (arrow_site ''Round 5'') 2
          (snd (navigate_to_round (arrow_site ''Round 5'') 2 (start ())))) = Inr True \<and>
   ui (trace (snd (navigate_to_round (arrow_site ''Round 5'') 2
                (snd (navigate_to_round (arrow_site ''Round 5'') 2 (start ())))))) =
     ui (trace (snd (navigate_to_round (arrow_site ''Round 5'') 2 (start ())))) @
     [Looked ROUND_TEXT_SELECTOR (Some 1), Read 1, Looked ROUND_DROPDOWN_BUTTON None] @
     steps PREV_ROUND_ARROW [4, 4, 4]"
proof -
  obtain s1 where a:
    "navigate_to_round (arrow_site ''Round 5'') 2 (start ()) = (Inr True, s1)"
    using arrow_site_5_to_2 by blast
  obtain t s2 where b:
    "extract_round (arrow_site ''Round 5'') s1 = (Inr (Some 5), t)"
    "navigate_to_round (arrow_site ''Round 5'') 2 s1 = (Inr True, s2)"
    "ui (trace s2) = ui (trace s1) @
       [Looked ROUND_TEXT_SELECTOR (Some 1), Read 1, Looked ROUND_DROPDOWN_BUTTON None,
        Looked PREV_ROUND_ARROW (Some 4), Clicked 4,
        Looked PREV_ROUND_ARROW (Some 4), Clicked 4,
        Looked PREV_ROUND_ARROW (Some 4), Clicked 4]"
    using arrow_site_5_to_2 by blast
  show ?thesis
    by (simp add: a b)
qed

text \<open>
  C6 (as amended). After a first call that returned success, a second call with the same
  target does nothing further exactly when the round read from the label is the target:
  then it returns \<open>True\<close> in the state left by that reading, having waited for the label
  and read it, nothing else. When the label reads another round, or none, the second
  call goes on to the round dropdown.
\<close>

theorem navigate_to_round_second_call:
  assumes "navigate_to_round d target s = (Inr True, s1)"
    and "extract_round d s1 = (Inr current, t)"
    and "navigate_to_round d target s1 = (r2, s2)"
  shows "if current = Some target
         then r2 = Inr True \<and> s2 = t \<and>
              (\<exists>e. trace s2 = trace s1 @
                 [(AWaitPresence CSS_SELECTOR ROUND_TEXT_SELECTOR, Found e), (AText e, Returned)])
         else (\<exists>out rest. trace s2 =
                 trace t @ (AWaitPresence CSS_SELECTOR ROUND_DROPDOWN_BUTTON, out) # rest)"
proof (cases "current = Some target")
  case True
  with assms(2,3) have "r2 = Inr True" "s2 = t"
    by (simp_all add: navigate_to_round_def bnd_def ret_def)
  moreover from assms(2) True obtain e where
    "trace t = trace s1 @
       [(AWaitPresence CSS_SELECTOR ROUND_TEXT_SELECTOR, Found e), (AText e, Returned)]"
    using extract_round_trace by blast
  ultimately show ?thesis using True by simp
next
  case False
  obtain rd td where dd: "round_by_dropdown d target t = (rd, td)"
    by (cases "round_by_dropdown d target t")
  from round_by_dropdown_starts[OF dd] obtain out rest where
    td: "trace td = trace t @ (AWaitPresence CSS_SELECTOR ROUND_DROPDOWN_BUTTON, out) # rest"
    by blast
  have "\<exists>ext. trace s2 = trace td @ ext"
    using assms(2,3) False dd
    by (auto simp: navigate_to_round_def bnd_def ret_def Let_def
        split: sum.splits if_splits prod.splits dest!: arrow_steps_grows py_sleep_trace)
  then obtain ext where "trace s2 = trace td @ ext"
    by blast
  with td have "trace s2 =
      trace t @ (AWaitPresence CSS_SELECTOR ROUND_DROPDOWN_BUTTON, out) # (rest @ ext)"
    by simp
  with False show ?thesis by auto
qed

text \<open>
  On the site whose dropdown works, the first call from round 5 to round 7 goes through
  the dropdown, and the second call only reads the label.
\<close>

theorem navigate_to_round_second_call_witness:
  "fst (navigate_to_round round_site 7 (start 5)) = Inr True \<and>
   ui (trace (snd (navigate_to_round round_site 7 (start 5)))) =
     [Looked ROUND_TEXT_SELECTOR (Some 1), Read 1,
      Looked ROUND_DROPDOWN_BUTTON (Some 2), Clicked 2,
      Looked (ROUND_OPTION_XPATH 7) (Some 3), Clicked 3] \<and>
   fst (navigate_to_round round_site 7 (snd (navigate_to_round round_site 7 (start 5)))) =
     Inr True \<and>
   ui (trace (snd (navigate_to_round round_site 7
                (snd (navigate_to_round round_site 7 (start 5)))))) =
     ui (trace (snd (navigate_to_round round_site 7 (start 5)))) @
     [Looked ROUND_TEXT_SELECTOR (Some 1), Read 1]"
proof -
  define s1 where "s1 = snd (navigate_to_round round_site 7 (start 5))"
  have first: "navigate_to_round round_site 7 (start 5) = (Inr True, s1)"
    using round_site_first_call by (simp add: s1_def prod_eq_iff)
  have "world s1 = 7"
    using round_site_first_call by (simp add: s1_def)
  then obtain t where look: "extract_round round_site s1 = (Inr (Some 7), t)"
    "ui (trace t) = ui (trace s1) @ [Looked ROUND_TEXT_SELECTOR (Some 1), Read 1]"
    using round_site_shows by blast
  obtain r2 s2 where second: "navigate_to_round round_site 7 s1 = (r2, s2)"
    by (cases "navigate_to_round round_site 7 s1")
  from navigate_to_round_second_call[OF first look(1) second]
  have "r2 = Inr True" "s2 = t"
    by simp_all
  with second look(2) round_site_first_call show ?thesis
    by (simp add: s1_def)
qed

section \<open>The run and its store\<close>

text \<open>A browser program leaves the records, the file and the set of seen IDs alone.\<close>

lemma on_browser_frame:
  "on_browser m st = (r, st') \<Longrightarrow>
   all_match_data st' = all_match_data st \<and> store_file st' = store_file st \<and>
   scraped_ids st' = scraped_ids st"
  by (auto simp: on_browser_def split: prod.splits)

text \<open>
  One link: either nothing is stored, or the link was not seen before, the scrape gave a
  record that is not empty, and this record, with the \<open>match_id\<close> and the \<open>source_url\<close> of
  the link set, was appended to the records, the records saved and the ID added.
\<close>

lemma process_link_store:
  assumes "process_link d tab md l st = (r, st')"
  shows "(all_match_data st' = all_match_data st \<and> store_file st' = store_file st \<and>
          scraped_ids st' = scraped_ids st) \<or>
         (\<exists>data. data \<noteq> [] \<and> PStr (match_id l) \<notin> scraped_ids st \<and>
            all_match_data st' = all_match_data st @
              [dict_set ''source_url'' (PStr (url l))
                 (dict_set ''match_id'' (PStr (match_id l)) data)] \<and>
            store_file st' = save_data (all_match_data st') \<and>
            scraped_ids st' = insert (PStr (match_id l)) (scraped_ids st))"
  using assms
  by (auto simp: process_link_def Let_def
      split: prod.splits sum.splits if_splits dest!: on_browser_frame)

lemma map_of_dict_set: "map_of (dict_set k v m) = (map_of m)(k \<mapsto> v)"
  by (induction m) (auto simp: fun_eq_iff)

text \<open>
  A site with one match, 111, on round 1 of the season 24/25. The round label is element 1
  and the season label element 2; the link of the match is element 10. The world counts
  the pages loaded so far, and the pages of matches fail to load until \<open>k\<close> loads have
  been tried. The page of a match shows no statistics.
\<close>

definition flaky_site :: "nat \<Rightarrow> nat driver" where
  "flaky_site k =
     empty_page\<lparr>wait_presence := (\<lambda>how sel w.
                   (if sel = ROUND_TEXT_SELECTOR then Inr 1
                    else if sel = CURRENT_SEASON_TEXT_SELECTOR then Inr 2
                    else Inl TimeoutException, w)),
                wait_presence_all := (\<lambda>how sel w.
                   (if sel = MATCH_LINK_SELECTOR then Inr () else Inl TimeoutException, w)),
                find_elements := (\<lambda>how sel w.
                   (Inr (if sel = MATCH_LINK_SELECTOR then [10] else []), w)),
                elem_text := (\<lambda>e w. (Inr (if e = 1 then ''Round 1'' else ''24/25''), w)),
                elem_get_attribute := (\<lambda>e name w.
                   (Inr (if e = 10 \<and> name = ''href''
                         then Some ''/football/match/a-b/xyz#id:111'' else None), w)),
                driver_get := (\<lambda>page w.
                   if page = BASE_URL then (Inr (), w)
                   else (if w < k then Inl WebDriverException else Inr (), Suc w))\<rparr>"

lemma flaky_site_fields:
  "wait_presence (flaky_site k) how sel w = (if sel = ROUND_TEXT_SELECTOR then Inr 1 else if sel = CURRENT_SEASON_TEXT_SELECTOR then Inr 2 else Inl TimeoutException, w)"
  "wait_presence_all (flaky_site k) how sel w = (if sel = MATCH_LINK_SELECTOR then Inr () else Inl TimeoutException, w)"
  "find_elements (flaky_site k) how sel w = (Inr (if sel = MATCH_LINK_SELECTOR then [10] else []), w)"
  "elem_find_elements (flaky_site k) e how sel w = (Inr [], w)"
  "elem_text (flaky_site k) e w = (Inr (if e = 1 then ''Round 1'' else ''24/25''), w)"
  "elem_get_attribute (flaky_site k) e name w = (Inr (if e = 10 \<and> name = ''href'' then Some ''/football/match/a-b/xyz#id:111'' else None), w)"
  "elem_click (flaky_site k) e w = (Inr (), w)"
  "execute_script (flaky_site k) script arg w = (Inr PNone, w)"
  "time_sleep (flaky_site k) ms w = (Inr (), w)"
  "driver_get (flaky_site k) page w = (if page = BASE_URL then (Inr (), w) else (if w < k then Inl WebDriverException else Inr (), Suc w))"
  "window_handles (flaky_site k) w = (Inr [''tab0'', ''tab1''], w)"
  "switch_to_window (flaky_site k) h w = (Inr (), w)"
  "driver_close (flaky_site k) w = (Inr (), w)"
  "session_alive (flaky_site k) w = (Inr True, w)"
  "driver_quit (flaky_site k) w = (Inr (), w)"
  "new_chrome (flaky_site k) w = (Inr (), w)"
  "implicitly_wait (flaky_site k) w = (Inr (), w)"
  "current_window_handle (flaky_site k) w = (Inr ''tab0'', w)"
  "dismiss_cookies (flaky_site k) w = (Inr False, w)"
  "random_uniform (flaky_site k) w = (Inr 0, w)"
  "extract_field (flaky_site k) key w = (Inr (PStr ''N/A''), w)"
  "elapsed (flaky_site k) w = 0"
  by (simp_all add: flaky_site_def empty_page_def)

subsection \<open>A page that does not load\<close>












end
